theory Spec2Isabelle
  imports Complex_Main "HOL-Library.Signed_Division" "HOL-Library.Word"
begin

unbundle bit_operations_syntax

section \<open>Conventions of the embedding\<close>

text \<open>
  The solver stores every physical quantity as a C++ \<^verbatim>\<open>double\<close>.  The embedding reads a
  \<^verbatim>\<open>double\<close> as a \<^typ>\<open>real\<close>; rounding, infinities and NaN are outside the model.
  C++ \<^verbatim>\<open>int\<close> values that are surface types, layer numbers or cell indices are read as
  \<^typ>\<open>int\<close> (they stay far below the 32-bit range); the C++ remainder \<^verbatim>\<open>%\<close>
  truncates towards zero and is written \<open>smod\<close>.  A restart file is the list of its
  bytes; the integers stored in it are \<^typ>\<open>32 word\<close>, sizes are \<^typ>\<open>64 word\<close>, and a
  double stored in it is its 64-bit pattern, since the routines copy it bit for bit.
  Memory allocation is taken to succeed.  Calls of \<^verbatim>\<open>exit(EXIT_FAILURE)\<close> are the
  \<open>Inl\<close> branch of a sum type.  A quotient of doubles is the quotient of the reals; where
  the divisor is zero the double is an infinity or a NaN, which the reals do not have, so
  every property of a quotient below is stated for a divisor that is not zero.
\<close>

type_synonym vec3 = "real \<times> real \<times> real"
type_synonym idx = "int \<times> int \<times> int"

definition scaleV :: "real \<Rightarrow> vec3 \<Rightarrow> vec3" where
  "scaleV c v = (case v of (x, y, z) \<Rightarrow> (c * x, c * y, c * z))"

definition negV :: "vec3 \<Rightarrow> vec3" where
  "negV v = (case v of (x, y, z) \<Rightarrow> (- x, - y, - z))"

datatype error =
    NonphysicalDensity
  | NonphysicalPressure
  | NoTimeStep
  | GeomSliceCellCount
  | EdgeDirectionMismatch
  | UndefinedBoundaryPair
  | RestartNotOpened
  | RestartSpeciesCount
  | RestartSpeciesUndefined
  | RestartBlockCount
  | RestartBlockSize

text \<open>Loops over cells: the body runs on each index in turn and an exit ends the loop.\<close>

fun forEachCell :: "(idx \<Rightarrow> 's \<Rightarrow> error + 's) \<Rightarrow> idx list \<Rightarrow> 's \<Rightarrow> error + 's" where
  "forEachCell body [] s = Inr s"
| "forEachCell body (c # cs) s =
     (case body c s of Inl e \<Rightarrow> Inl e | Inr s' \<Rightarrow> forEachCell body cs s')"

text \<open>
  The index list of the loop nest
  \<^verbatim>\<open>for kk in [sk, ek) { for jj in [sj, ej) { for ii in [si, ei) { ... } } }\<close>.
\<close>

definition cellRange :: "idx \<Rightarrow> idx \<Rightarrow> idx list" where
  "cellRange lo hi =
     (case lo of (si, sj, sk) \<Rightarrow> case hi of (ei, ej, ek) \<Rightarrow>
        concat (map (\<lambda>kk. concat (map (\<lambda>jj. map (\<lambda>ii. (ii, jj, kk)) [si..ei - 1])
                                        [sj..ej - 1]))
                    [sk..ek - 1]))"

section \<open>Boundary surfaces\<close>

text \<open>
  Surface types are the integers 1..6 (i-lower, i-upper, j-lower, j-upper, k-lower,
  k-upper).  \<^verbatim>\<open>procBlock::AssignInviscidGhostCells\<close> tests
  \<^verbatim>\<open>surfType % 2 == 0\<close> for an upper surface and \<^verbatim>\<open>procBlock::GetGhostStates\<close>
  tests \<^verbatim>\<open>surfType % 2 == 1\<close> for a lower one.
\<close>

definition isUpperSurface :: "int \<Rightarrow> bool" where
  "isUpperSurface surfType = (surfType smod 2 = 0)"

definition isLowerSurface :: "int \<Rightarrow> bool" where
  "isLowerSurface surfType = (surfType smod 2 = 1)"

section \<open>Geometry slices: \<^verbatim>\<open>procBlock::PutGeomSlice\<close>\<close>

text \<open>
  Modelled from the spec: the class \<^verbatim>\<open>connection\<close> is declared in a header that is not
  part of the sources at hand.  A connection is "an inter-block boundary" that holds "the
  two patches on each block (Dir1/Dir2 lengths and starts), the Direction3First/Second in
  {i,j,k}, and an orientation code in {1..8}"; the record holds the values that the
  accessors called by \<^verbatim>\<open>PutGeomSlice\<close> return.
\<close>

record connection =
  BoundaryFirst :: int
  BoundarySecond :: int
  Orientation :: int
  Direction1First :: string
  Direction2First :: string
  Direction3First :: string
  Direction3Second :: string
  Dir1StartFirst :: int
  Dir1EndFirst :: int
  Dir2StartFirst :: int
  Dir2EndFirst :: int
  Dir1LenFirst :: int
  Dir2LenFirst :: int
  Dir1StartInterBorderFirst :: bool
  Dir1EndInterBorderFirst :: bool
  Dir2StartInterBorderFirst :: bool
  Dir2EndInterBorderFirst :: bool

text \<open>The three area factors computed at the head of \<^verbatim>\<open>PutGeomSlice\<close>.\<close>

definition aFac3 :: "connection \<Rightarrow> real" where
  "aFac3 cn =
     (if (BoundaryFirst cn + BoundarySecond cn) smod 2 = 0 then - 1 else 1)"

definition aFac1 :: "connection \<Rightarrow> real" where
  "aFac1 cn =
     (if Orientation cn = 3 \<or> Orientation cn = 4 \<or>
         Orientation cn = 7 \<or> Orientation cn = 8 then - 1 else 1)"

definition aFac2 :: "connection \<Rightarrow> real" where
  "aFac2 cn =
     (if Orientation cn = 5 \<or> Orientation cn = 6 \<or>
         Orientation cn = 7 \<or> Orientation cn = 8 then - 1 else 1)"

text \<open>
  Modelled from the spec: \<^verbatim>\<open>connection::IsLowerLowerOrUpperUpper\<close> is declared in the
  same header.  By its name, and by the comment at its use in \<^verbatim>\<open>PutGeomSlice\<close> ("if
  lower/lower or upper/upper, direction 3 must be reversed"), it holds when the two
  surfaces of the connection are both lower or both upper surfaces.  It only selects
  which face of the slice is read, never the sign.
\<close>

definition IsLowerLowerOrUpperUpper :: "connection \<Rightarrow> bool" where
  "IsLowerLowerOrUpperUpper cn =
     ((isLowerSurface (BoundaryFirst cn) \<and> isLowerSurface (BoundarySecond cn)) \<or>
      (isUpperSurface (BoundaryFirst cn) \<and> isUpperSurface (BoundarySecond cn)))"

text \<open>
  The geometry arrays that a block and a geometry slice both hold and that the routine
  exchanges: the face areas, one array per face family (\<^verbatim>\<open>fAreaI_\<close>,
  \<^verbatim>\<open>fAreaJ_\<close>, \<^verbatim>\<open>fAreaK_\<close>), and the cell volumes.  The cell centres and the
  face centres are copied by the same assignments, without a factor, and are left out.
  A slice also knows its number of cells and of ghost layers.
\<close>

record geometry =
  fAreaI :: "idx \<Rightarrow> vec3"
  fAreaJ :: "idx \<Rightarrow> vec3"
  fAreaK :: "idx \<Rightarrow> vec3"
  Vol :: "idx \<Rightarrow> real"

record geomSlice =
  arrays :: geometry
  NumCells :: int
  GhostLayers :: int

text \<open>
  \<^verbatim>\<open>GetSwapLoc\<close> and \<^verbatim>\<open>procBlock::AtEdgeInclusive\<close> are defined outside the sources
  at hand; they are parameters of the embedding.  \<open>GetSwapLoc l1 l2 l3 g inter d3 first\<close>
  is the index of the cell at the loop position \<open>(l1, l2, l3)\<close> in the first (receiving)
  or second block of the connection; \<open>AtEdgeInclusive\<close> is \<open>Some\<close> of the edge direction
  when the cell lies on an edge of the block.
\<close>

record swapKernels =
  GetSwapLoc :: "int \<Rightarrow> int \<Rightarrow> int \<Rightarrow> int \<Rightarrow> connection \<Rightarrow> int \<Rightarrow> bool \<Rightarrow> idx"
  AtEdgeInclusive :: "idx \<Rightarrow> string option"

definition shiftIdx :: "string \<Rightarrow> int \<Rightarrow> idx \<Rightarrow> idx" where
  "shiftIdx dir n ind =
     (case ind of (i, j, k) \<Rightarrow>
        if dir = ''i'' then (i + n, j, k)
        else if dir = ''j'' then (i, j + n, k)
        else (i, j, k + n))"

definition readFArea :: "string \<Rightarrow> geometry \<Rightarrow> idx \<Rightarrow> vec3" where
  "readFArea dir g ind =
     (if dir = ''i'' then fAreaI g ind
      else if dir = ''j'' then fAreaJ g ind
      else fAreaK g ind)"

definition writeFArea :: "string \<Rightarrow> idx \<Rightarrow> vec3 \<Rightarrow> geometry \<Rightarrow> geometry" where
  "writeFArea dir ind v g =
     (if dir = ''i'' then g\<lparr>fAreaI := (fAreaI g)(ind := v)\<rparr>
      else if dir = ''j'' then g\<lparr>fAreaJ := (fAreaJ g)(ind := v)\<rparr>
      else g\<lparr>fAreaK := (fAreaK g)(ind := v)\<rparr>)"

definition knownDir :: "string \<Rightarrow> bool" where
  "knownDir dir = (dir = ''i'' \<or> dir = ''j'' \<or> dir = ''k'')"

text \<open>
  The source spells out the nine pairings of the direction 3 of the receiving block with
  the direction 3 of the partner.  The nine texts differ in the face families only: the
  family written for direction 3 is that of the receiving block's direction 3 and the
  family read is that of the partner's direction 3; for direction 1 they are the next
  directions in the cyclic order i, j, k, and for direction 2 the ones after.  Any other
  pair of direction names ends in \<^verbatim>\<open>exit(EXIT_FAILURE)\<close>.
\<close>

definition nextDir :: "string \<Rightarrow> string" where
  "nextDir dir = (if dir = ''i'' then ''j'' else if dir = ''j'' then ''k'' else ''i'')"

text \<open>
  "Swap face data for direction 3".  \<open>indB\<close> and \<open>indS0\<close> are the block and slice
  indices of the cell, \<open>l3\<close> the layer counter and \<open>d3\<close> the number of layers.  The
  slice index is first advanced by one along the partner's direction 3 for lower/lower
  and upper/upper pairings; at the end of the direction-3 line the face beyond the cell
  is written as well.
\<close>

definition swapFaceDir3 ::
  "connection \<Rightarrow> geometry \<Rightarrow> int \<Rightarrow> int \<Rightarrow> idx \<Rightarrow> idx \<Rightarrow> geometry \<Rightarrow> geometry" where
  "swapFaceDir3 cn sl l3 d3 indB indS0 blk =
     (let fac3 = (if IsLowerLowerOrUpperUpper cn then - 1 else 1 :: int);
          indS = (if IsLowerLowerOrUpperUpper cn
                  then shiftIdx (Direction3Second cn) 1 indS0 else indS0);
          dF = Direction3First cn;
          dS = Direction3Second cn;
          blk1 = writeFArea dF indB (scaleV (aFac3 cn) (readFArea dS sl indS)) blk
      in if l3 = d3 - 1
         then writeFArea dF (shiftIdx dF 1 indB)
                (scaleV (aFac3 cn) (readFArea dS sl (shiftIdx dS fac3 indS))) blk1
         else blk1)"

text \<open>
  "Swap face data for direction 1" and "for direction 2": \<open>fF\<close> and \<open>fS\<close> are the face
  families written and read, \<open>atEnd\<close> tells whether the cell ends its line.  The slice
  index is the one of the cell (the advance made for direction 3 has been taken back).
\<close>

definition swapFaceDir12 ::
  "real \<Rightarrow> string \<Rightarrow> string \<Rightarrow> bool \<Rightarrow> geometry \<Rightarrow> idx \<Rightarrow> idx \<Rightarrow> geometry \<Rightarrow> geometry" where
  "swapFaceDir12 aFac fF fS atEnd sl indB indS blk =
     (if aFac = 1 then
        let blk1 = writeFArea fF indB (scaleV aFac (readFArea fS sl indS)) blk
        in if atEnd
           then writeFArea fF (shiftIdx fF 1 indB)
                  (scaleV aFac (readFArea fS sl (shiftIdx fS 1 indS))) blk1
           else blk1
      else
        let blk1 = writeFArea fF indB (scaleV aFac (readFArea fS sl (shiftIdx fS 1 indS))) blk
        in if atEnd
           then writeFArea fF (shiftIdx fF 1 indB) (scaleV aFac (readFArea fS sl indS)) blk1
           else blk1)"

text \<open>
  The body of the loop over the cells to insert.  A slice cell of volume zero has not
  received its own boundary values yet and is not inserted; if it lies on an edge of the
  block the edge is recorded in \<open>adjEdge\<close>.  Otherwise the volume and the face areas
  are copied.
\<close>

definition nthCoord :: "nat \<Rightarrow> idx \<Rightarrow> int" where
  "nthCoord n ind = (case ind of (i, j, k) \<Rightarrow> if n = 0 then i else if n = 1 then j else k)"

definition PutGeomSlice_cell ::
  "swapKernels \<Rightarrow> geomSlice \<Rightarrow> connection \<Rightarrow> int \<Rightarrow> int \<Rightarrow> idx \<Rightarrow>
     geometry \<times> bool list \<Rightarrow> error + geometry \<times> bool list" where
  "PutGeomSlice_cell S gslice cn d3 ng l s =
     (case l of (l1, l2, l3) \<Rightarrow> case s of (blk, adjEdge) \<Rightarrow>
      let indB = GetSwapLoc S l1 l2 l3 ng cn d3 True;
          indS = GetSwapLoc S l1 l2 l3 (GhostLayers gslice) cn d3 False
      in if Vol (arrays gslice) indS = 0 then
           (case AtEdgeInclusive S indB of
              None \<Rightarrow> Inr (blk, adjEdge)
            | Some edgeDir \<Rightarrow>
                let dir1 = (if Direction1First cn = ''i'' then 0
                            else if Direction1First cn = ''j'' then 1 else 2 :: nat);
                    dir2 = (if Direction1First cn = ''i'' then 1
                            else if Direction1First cn = ''j'' then 2 else 0 :: nat)
                in if edgeDir = Direction1First cn then
                     (if nthCoord dir2 indB < Dir2StartFirst cn + ng
                      then Inr (blk, adjEdge[2 := True])
                      else Inr (blk, adjEdge[3 := True]))
                   else if edgeDir = Direction2First cn then
                     (if nthCoord dir1 indB < Dir1StartFirst cn + ng
                      then Inr (blk, adjEdge[0 := True])
                      else Inr (blk, adjEdge[1 := True]))
                   else Inl EdgeDirectionMismatch)
         else
           let blk0 = blk\<lparr>Vol := (Vol blk)(indB := Vol (arrays gslice) indS)\<rparr>;
               dF = Direction3First cn;
               dS = Direction3Second cn
           in if knownDir dF \<and> knownDir dS then
                let blk3 = swapFaceDir3 cn (arrays gslice) l3 d3 indB indS blk0;
                    blk1 = swapFaceDir12 (aFac1 cn) (nextDir dF) (nextDir dS)
                             (l1 = Dir1EndFirst cn - Dir1StartFirst cn - 1)
                             (arrays gslice) indB indS blk3;
                    blk2 = swapFaceDir12 (aFac2 cn) (nextDir (nextDir dF)) (nextDir (nextDir dS))
                             (l2 = Dir2EndFirst cn - Dir2StartFirst cn - 1)
                             (arrays gslice) indB indS blk1
                in Inr (blk2, adjEdge)
              else Inl UndefinedBoundaryPair)"

text \<open>
  The loop \<^verbatim>\<open>for l3 in [0, d3) { for l2 { for l1 { ... } } }\<close> with the insertion indices
  adjusted where the patch borders another connection, and the routine itself: it exits
  when the number of cells of the slice does not match the space to insert into.  \<open>ng\<close>
  is the number of ghost layers \<^verbatim>\<open>numGhosts_\<close> of the receiving block.
\<close>

definition insertionCells :: "connection \<Rightarrow> int \<Rightarrow> int \<Rightarrow> idx list" where
  "insertionCells cn d3 ng =
     (let adjS1 = (if Dir1StartInterBorderFirst cn then ng else 0);
          adjE1 = (if Dir1EndInterBorderFirst cn then ng else 0);
          adjS2 = (if Dir2StartInterBorderFirst cn then ng else 0);
          adjE2 = (if Dir2EndInterBorderFirst cn then ng else 0)
      in cellRange (adjS1, adjS2, 0) (Dir1LenFirst cn - adjE1, Dir2LenFirst cn - adjE2, d3))"

definition PutGeomSlice ::
  "swapKernels \<Rightarrow> geomSlice \<Rightarrow> connection \<Rightarrow> int \<Rightarrow> int \<Rightarrow> geometry \<Rightarrow>
     error + geometry \<times> bool list" where
  "PutGeomSlice S gslice cn d3 ng blk =
     (if Dir1LenFirst cn * Dir2LenFirst cn * d3 \<noteq> NumCells gslice then Inl GeomSliceCellCount
      else forEachCell (PutGeomSlice_cell S gslice cn d3 ng) (insertionCells cn d3 ng)
             (blk, replicate 4 False))"

text \<open>
  The two kinds of pairing of the surfaces of a connection.
\<close>

definition sameSidePairing :: "connection \<Rightarrow> bool" where
  "sameSidePairing cn =
     ((isLowerSurface (BoundaryFirst cn) \<and> isLowerSurface (BoundarySecond cn)) \<or>
      (isUpperSurface (BoundaryFirst cn) \<and> isUpperSurface (BoundarySecond cn)))"

definition lowerUpperPairing :: "connection \<Rightarrow> bool" where
  "lowerUpperPairing cn =
     ((isLowerSurface (BoundaryFirst cn) \<and> isUpperSurface (BoundarySecond cn)) \<or>
      (isUpperSurface (BoundaryFirst cn) \<and> isLowerSurface (BoundarySecond cn)))"

text \<open>
  The direction-3 faces that the routine exchanges, in the order of the loop, as pairs
  of the face index written in the block and the face index read in the slice: for each
  inserted cell its own face and, at the end of the direction-3 line, the face beyond.
  The last exchange that writes a face decides what the face holds afterwards.
  \<open>areaUpdate\<close> is the assignment made for one pair, and \<open>dir3AreaAfter\<close> reads a
  face area of the block that the routine returns (\<open>None\<close> after an exit).
\<close>

definition dir3ExchangesAt ::
  "swapKernels \<Rightarrow> geomSlice \<Rightarrow> connection \<Rightarrow> int \<Rightarrow> int \<Rightarrow> idx \<Rightarrow> (idx \<times> idx) list" where
  "dir3ExchangesAt S gslice cn d3 ng l =
     (case l of (l1, l2, l3) \<Rightarrow>
      let indB = GetSwapLoc S l1 l2 l3 ng cn d3 True;
          indS0 = GetSwapLoc S l1 l2 l3 (GhostLayers gslice) cn d3 False;
          indS = (if IsLowerLowerOrUpperUpper cn
                  then shiftIdx (Direction3Second cn) 1 indS0 else indS0);
          fac3 = (if IsLowerLowerOrUpperUpper cn then - 1 else 1 :: int)
      in if Vol (arrays gslice) indS0 = 0 then []
         else (indB, indS) #
              (if l3 = d3 - 1
               then [(shiftIdx (Direction3First cn) 1 indB,
                      shiftIdx (Direction3Second cn) fac3 indS)]
               else []))"

definition dir3Exchanges ::
  "swapKernels \<Rightarrow> geomSlice \<Rightarrow> connection \<Rightarrow> int \<Rightarrow> int \<Rightarrow> (idx \<times> idx) list" where
  "dir3Exchanges S gslice cn d3 ng =
     concat (map (dir3ExchangesAt S gslice cn d3 ng) (insertionCells cn d3 ng))"

definition lastExchange :: "(idx \<times> idx) list \<Rightarrow> idx \<Rightarrow> idx option" where
  "lastExchange xs f = map_of (rev xs) f"

definition dir3AreaAfter ::
  "error + geometry \<times> bool list \<Rightarrow> string \<Rightarrow> idx \<Rightarrow> vec3 option" where
  "dir3AreaAfter r dir f =
     (case r of Inl e \<Rightarrow> None | Inr s \<Rightarrow> Some (readFArea dir (fst s) f))"

definition areaUpdate :: "connection \<Rightarrow> geometry \<Rightarrow> idx \<times> idx \<Rightarrow> (idx \<Rightarrow> vec3) \<Rightarrow> (idx \<Rightarrow> vec3)" where
  "areaUpdate cn sl p a =
     a(fst p := scaleV (aFac3 cn) (readFArea (Direction3Second cn) sl (snd p)))"

text \<open>Concrete connections, kernels and arrays used to run the exchange.\<close>

definition exSwap :: swapKernels where
  "exSwap = \<lparr>GetSwapLoc = (\<lambda>l1 l2 l3 g cn d3 first. (l3, l1, l2)),
             AtEdgeInclusive = (\<lambda>c. None)\<rparr>"

definition exSlice :: geomSlice where
  "exSlice = \<lparr>arrays = \<lparr>fAreaI = (\<lambda>(i, j, k). (real_of_int i + 1, 2, 3)),
                          fAreaJ = (\<lambda>c. (0, 1, 0)), fAreaK = (\<lambda>c. (0, 0, 1)),
                          Vol = (\<lambda>c. 1)\<rparr>,
              NumCells = 2, GhostLayers = 2\<rparr>"

definition emptyGeometry :: geometry where
  "emptyGeometry = \<lparr>fAreaI = (\<lambda>c. (0, 0, 0)), fAreaJ = (\<lambda>c. (0, 0, 0)),
                    fAreaK = (\<lambda>c. (0, 0, 0)), Vol = (\<lambda>c. 0)\<rparr>"

definition lowerUpperExample :: connection where
  "lowerUpperExample = \<lparr>BoundaryFirst = 2, BoundarySecond = 1, Orientation = 1,
      Direction1First = ''j'', Direction2First = ''k'',
      Direction3First = ''i'', Direction3Second = ''i'',
      Dir1StartFirst = 0, Dir1EndFirst = 1, Dir2StartFirst = 0, Dir2EndFirst = 1,
      Dir1LenFirst = 1, Dir2LenFirst = 1,
      Dir1StartInterBorderFirst = False, Dir1EndInterBorderFirst = False,
      Dir2StartInterBorderFirst = False, Dir2EndInterBorderFirst = False\<rparr>"

definition lowerLowerExample :: connection where
  "lowerLowerExample = lowerUpperExample\<lparr>BoundaryFirst := 1\<rparr>"

definition gatedSlice :: geomSlice where
  "gatedSlice = exSlice\<lparr>arrays := (arrays exSlice)\<lparr>Vol := (\<lambda>c. if c = (1, 0, 0) then 0 else 1)\<rparr>\<rparr>"

section \<open>Variable arrays\<close>

text \<open>
  Modelled from the spec: the header of \<^verbatim>\<open>varArray\<close> is not part of the sources at
  hand.  The specification gives the layout of every solution record as
  \<^verbatim>\<open>[species mass densities ..., momentum x, y, z, energy (or P), turbulence ...]\<close> and
  says that the index of each role is a function of the number of species alone.  A
  record is therefore a list of reals together with its number of species; the species
  sum adds the leading species entries.
\<close>

record varArray =
  data :: "real list"
  numSpecies :: nat

definition Size :: "varArray \<Rightarrow> nat" where
  "Size v = length (data v)"

definition MomentumXIndex :: "varArray \<Rightarrow> nat" where
  "MomentumXIndex v = numSpecies v"

definition MomentumYIndex :: "varArray \<Rightarrow> nat" where
  "MomentumYIndex v = numSpecies v + 1"

definition MomentumZIndex :: "varArray \<Rightarrow> nat" where
  "MomentumZIndex v = numSpecies v + 2"

definition EnergyIndex :: "varArray \<Rightarrow> nat" where
  "EnergyIndex v = numSpecies v + 3"

definition TurbulenceIndex :: "varArray \<Rightarrow> nat" where
  "TurbulenceIndex v = numSpecies v + 4"

definition speciesPart :: "varArray \<Rightarrow> real list" where
  "speciesPart v = take (numSpecies v) (data v)"

definition turbulencePart :: "varArray \<Rightarrow> real list" where
  "turbulencePart v = drop (TurbulenceIndex v) (data v)"

definition SpeciesN :: "varArray \<Rightarrow> nat \<Rightarrow> real" where
  "SpeciesN v ii = data v ! ii"

definition SpeciesSum :: "varArray \<Rightarrow> real" where
  "SpeciesSum v = sum_list (speciesPart v)"

definition MomentumX :: "varArray \<Rightarrow> real" where
  "MomentumX v = data v ! MomentumXIndex v"

definition MomentumY :: "varArray \<Rightarrow> real" where
  "MomentumY v = data v ! MomentumYIndex v"

definition MomentumZ :: "varArray \<Rightarrow> real" where
  "MomentumZ v = data v ! MomentumZIndex v"

definition EnergyEntry :: "varArray \<Rightarrow> real" where
  "EnergyEntry v = data v ! EnergyIndex v"

text \<open>Element-wise operators of the records.\<close>

definition va_add :: "varArray \<Rightarrow> varArray \<Rightarrow> varArray" where
  "va_add a b = a\<lparr>data := map2 (+) (data a) (data b)\<rparr>"

definition va_sub :: "varArray \<Rightarrow> varArray \<Rightarrow> varArray" where
  "va_sub a b = a\<lparr>data := map2 (-) (data a) (data b)\<rparr>"

definition va_mul :: "varArray \<Rightarrow> varArray \<Rightarrow> varArray" where
  "va_mul a b = a\<lparr>data := map2 (*) (data a) (data b)\<rparr>"

definition va_scale :: "real \<Rightarrow> varArray \<Rightarrow> varArray" where
  "va_scale c a = a\<lparr>data := map (\<lambda>x. c * x) (data a)\<rparr>"

subsection \<open>The primitive record (\<^verbatim>\<open>primitive.hpp\<close>)\<close>

definition Rho :: "varArray \<Rightarrow> real" where
  "Rho v = SpeciesSum v"

definition RhoN :: "varArray \<Rightarrow> nat \<Rightarrow> real" where
  "RhoN v ii = SpeciesN v ii"

definition RhoVec :: "varArray \<Rightarrow> real list" where
  "RhoVec v = speciesPart v"

definition MassFractionN :: "varArray \<Rightarrow> nat \<Rightarrow> real" where
  "MassFractionN v ii = RhoN v ii / Rho v"

definition MassFractions :: "varArray \<Rightarrow> real list" where
  "MassFractions v = map (\<lambda>r. r / Rho v) (speciesPart v)"

definition primU :: "varArray \<Rightarrow> real" where
  "primU v = MomentumX v"

definition primV :: "varArray \<Rightarrow> real" where
  "primV v = MomentumY v"

definition primW :: "varArray \<Rightarrow> real" where
  "primW v = MomentumZ v"

definition primP :: "varArray \<Rightarrow> real" where
  "primP v = EnergyEntry v"

definition VelocityMag :: "varArray \<Rightarrow> real" where
  "VelocityMag v = sqrt (primU v * primU v + primV v * primV v + primW v * primW v)"

text \<open>
  The physics models are external collaborators of the core.  The three operations the
  conversions use are parameters of the embedding: the total energy per unit mass of a
  primitive (\<^verbatim>\<open>primitive::Energy\<close>), the pressure computed by the equation of state from
  the species densities, the energy and the velocity magnitude
  (\<^verbatim>\<open>eos::PressFromEnergy\<close>), and the limiting of the turbulence variables
  (\<^verbatim>\<open>primitive::LimitTurb\<close>), which writes turbulence entries only.
\<close>

record physics =
  PrimEnergy :: "varArray \<Rightarrow> real"
  PressFromEnergy :: "real list \<Rightarrow> real \<Rightarrow> real \<Rightarrow> real"
  LimitTurbN :: "real list \<Rightarrow> real list"

text \<open>\<^verbatim>\<open>PrimToCons\<close> (and \<^verbatim>\<open>primitive::ConsVars\<close>, which forwards to it).\<close>

definition PrimToCons :: "varArray \<Rightarrow> physics \<Rightarrow> varArray" where
  "PrimToCons st phys =
     (let rho = Rho st in
      st\<lparr>data := speciesPart st
                  @ [rho * primU st, rho * primV st, rho * primW st, rho * PrimEnergy phys st]
                  @ map (\<lambda>t. rho * t) (turbulencePart st)\<rparr>)"

definition ConsVars :: "varArray \<Rightarrow> physics \<Rightarrow> varArray" where
  "ConsVars st phys = PrimToCons st phys"

text \<open>
  The constructor \<^verbatim>\<open>primitive::primitive(cons, phys)\<close>.  The pressure is computed
  from the species densities and the velocity already stored in the new record.
\<close>

definition primitiveFromCons :: "varArray \<Rightarrow> physics \<Rightarrow> varArray" where
  "primitiveFromCons cons phys =
     (let rho = SpeciesSum cons;
          u = MomentumX cons / rho;
          v = MomentumY cons / rho;
          w = MomentumZ cons / rho;
          energy = EnergyEntry cons / rho;
          press = PressFromEnergy phys (speciesPart cons) energy (sqrt (u * u + v * v + w * w))
      in cons\<lparr>data := speciesPart cons @ [u, v, w, press]
                    @ LimitTurbN phys (map (\<lambda>t. t / rho) (turbulencePart cons))\<rparr>)"

text \<open>
  \<^verbatim>\<open>UpdatePrimWithCons\<close>: the conserved record is advanced by \<open>du\<close>, its mass
  fractions are clamped at zero and divided by their total, and the species densities are
  rebuilt from the mixture density before the primitive is constructed.
\<close>

definition UpdatePrimWithCons :: "varArray \<Rightarrow> physics \<Rightarrow> varArray \<Rightarrow> varArray" where
  "UpdatePrimWithCons st phys du =
     (let consUpdate = va_add (ConsVars st phys) du;
          rho = Rho consUpdate;
          mf = map (\<lambda>frac. max frac 0) (MassFractions consUpdate);
          total = sum_list mf;
          mf' = map (\<lambda>frac. frac / total) mf;
          consUpdate' = consUpdate\<lparr>data := map (\<lambda>m. rho * m) mf'
                                              @ drop (numSpecies consUpdate) (data consUpdate)\<rparr>
      in primitiveFromCons consUpdate' phys)"

text \<open>
  Modelled from the spec: \<^verbatim>\<open>primitive::UpdateWithConsVars\<close> is declared in
  \<^verbatim>\<open>primitive.hpp\<close> and defined in a file that is not part of the sources at hand.  The
  specification describes the implicit update as the application of \<open>du\<close> to the
  conserved state followed by the clamped, renormalised construction of the primitive,
  which is \<^verbatim>\<open>UpdatePrimWithCons\<close>; the member function forwards to it.
\<close>

definition UpdateWithConsVars :: "varArray \<Rightarrow> physics \<Rightarrow> varArray \<Rightarrow> varArray" where
  "UpdateWithConsVars st phys du = UpdatePrimWithCons st phys du"

section \<open>Assertions\<close>

text \<open>
  Modelled from the spec: the macro \<^verbatim>\<open>MSG_ASSERT\<close> is defined in a header that is not
  part of the sources at hand.  The specification requires the density and pressure
  checks to be verified and the run to fail otherwise ("the implementation MUST verify
  rho > 0 and P > 0 (else fail ...)"; failures are fatal to the simulation), so a failed
  assertion is the early exit \<open>Inl\<close> and a passed one continues.
\<close>

definition MSG_ASSERT :: "bool \<Rightarrow> error \<Rightarrow> (error + 'a) \<Rightarrow> error + 'a" where
  "MSG_ASSERT cond msg continue = (if cond then continue else Inl msg)"

section \<open>The block: \<^verbatim>\<open>procBlock\<close>\<close>

record uncoupledScalar =
  flowVar :: real
  turbVar :: real

definition Max_us :: "uncoupledScalar \<Rightarrow> real" where
  "Max_us s = max (flowVar s) (turbVar s)"

text \<open>
  The input variables the routines below read.  \<^verbatim>\<open>IsImplicit\<close>, \<^verbatim>\<open>NumEquations\<close>,
  \<^verbatim>\<open>NumSpecies\<close>, \<^verbatim>\<open>IsRANS\<close> and \<^verbatim>\<open>IsMultilevelInTime\<close> are the values
  the accessors of those names return, \<open>FluidNames\<close> lists \<^verbatim>\<open>Fluid(ii).Name()\<close>, and
  \<open>CheckSpeciesPasses\<close> tells for which species names \<^verbatim>\<open>CheckSpecies\<close> returns
  rather than exits (the class is declared outside the sources at hand).
\<close>

record input =
  Dt :: real
  ARef :: real
  LRef :: real
  CFL :: real
  TimeIntegration :: string
  IsImplicit :: bool
  NumEquations :: nat
  OrderOfAccuracy :: string
  UsingMUSCLReconstruction :: bool
  Kappa :: real
  Limiter :: string
  IsWenoZ :: bool
  InviscidFluxName :: string
  NumSpecies :: nat
  IsRANS :: bool
  FluidNames :: "string list"
  IsMultilevelInTime :: bool
  CheckSpeciesPasses :: "string list \<Rightarrow> bool"

text \<open>
  The fields of the block that the routines below read or write.  Arrays are functions
  of the cell or face index; ghost cells have negative indices or indices beyond the
  number of cells.  The face arrays of the three families are addressed by the family
  name.
\<close>

text \<open>
  Modelled from the spec: the classes \<^verbatim>\<open>boundarySurface\<close> and
  \<^verbatim>\<open>boundaryConditions\<close> are declared in a header that is not part of the sources at
  hand.  A surface is "an axis-aligned cell-face range on one of six block sides, carrying
  a BC name and an integer tag"; the set of a block answers \<^verbatim>\<open>IsConnection\<close>,
  \<^verbatim>\<open>GetBCTypes\<close>, \<^verbatim>\<open>RangeDir1\<close>, \<^verbatim>\<open>RangeDir2\<close>, \<^verbatim>\<open>RangeDir3\<close>,
  \<^verbatim>\<open>Direction3\<close> and the surface type for each of its surfaces, and
  \<^verbatim>\<open>GetBCSurface\<close> returns the surface of a given type that holds a given face.  A
  range is the pair of its start and its end, the end excluded.
\<close>

record boundarySurface =
  BCType :: string
  Tag :: int
  SurfaceType :: int
  Direction3 :: string
  RangeDir1 :: "int \<times> int"
  RangeDir2 :: "int \<times> int"
  RangeDir3Start :: int
  IsConnection :: bool

record boundaryConditions =
  surfaces :: "boundarySurface list"
  GetBCSurface :: "idx \<Rightarrow> int \<Rightarrow> boundarySurface"

record procBlock =
  NumI :: int
  NumJ :: int
  NumK :: int
  numGhosts :: int
  parBlock :: int
  isViscous :: bool
  isTurbulent :: bool
  bc :: boundaryConditions
  wallDist :: "idx \<Rightarrow> real"
  viscosity :: "idx \<Rightarrow> real"
  state :: "idx \<Rightarrow> varArray"
  consVarsN :: "idx \<Rightarrow> varArray"
  residual :: "idx \<Rightarrow> varArray"
  dt :: "idx \<Rightarrow> real"
  vol :: "idx \<Rightarrow> real"
  specRadius :: "idx \<Rightarrow> uncoupledScalar"
  fAreaUnit :: "string \<Rightarrow> idx \<Rightarrow> vec3"
  fAreaMag :: "string \<Rightarrow> idx \<Rightarrow> real"
  cellWidth :: "string \<Rightarrow> idx \<Rightarrow> real"

subsection \<open>\<^verbatim>\<open>CalcCellDt\<close> and \<^verbatim>\<open>CalcBlockTimeStep\<close>\<close>

definition CalcCellDt :: "idx \<Rightarrow> real \<Rightarrow> procBlock \<Rightarrow> procBlock" where
  "CalcCellDt c cfl blk =
     blk\<lparr>dt := (dt blk)(c := cfl * (vol blk c / Max_us (specRadius blk c)))\<rparr>"

definition CalcBlockTimeStep_cell :: "input \<Rightarrow> idx \<Rightarrow> procBlock \<Rightarrow> error + procBlock" where
  "CalcBlockTimeStep_cell inp c blk =
     (if Dt inp > 0 then Inr (blk\<lparr>dt := (dt blk)(c := Dt inp * ARef inp / LRef inp)\<rparr>)
      else if CFL inp > 0 then Inr (CalcCellDt c (CFL inp) blk)
      else Inl NoTimeStep)"

definition CalcBlockTimeStep :: "input \<Rightarrow> procBlock \<Rightarrow> error + procBlock" where
  "CalcBlockTimeStep inp blk =
     forEachCell (CalcBlockTimeStep_cell inp)
       (cellRange (0, 0, 0) (NumI blk, NumJ blk, NumK blk)) blk"

subsection \<open>Time advance of one cell\<close>

definition insertState :: "idx \<Rightarrow> varArray \<Rightarrow> procBlock \<Rightarrow> procBlock" where
  "insertState c v blk = blk\<lparr>state := (state blk)(c := v)\<rparr>"

definition checkedState :: "idx \<Rightarrow> procBlock \<Rightarrow> error + procBlock" where
  "checkedState c blk =
     MSG_ASSERT (Rho (state blk c) > 0) NonphysicalDensity
       (MSG_ASSERT (primP (state blk c) > 0) NonphysicalPressure (Inr blk))"

definition ExplicitEulerTimeAdvance :: "physics \<Rightarrow> idx \<Rightarrow> procBlock \<Rightarrow> error + procBlock" where
  "ExplicitEulerTimeAdvance phys c blk =
     (let consVars = ConsVars (state blk c) phys;
          consVars' = va_sub consVars (va_scale (dt blk c / vol blk c) (residual blk c))
      in checkedState c (insertState c (primitiveFromCons consVars' phys) blk))"

definition ImplicitTimeAdvance ::
  "varArray \<Rightarrow> physics \<Rightarrow> idx \<Rightarrow> procBlock \<Rightarrow> error + procBlock" where
  "ImplicitTimeAdvance du phys c blk =
     checkedState c (insertState c (UpdateWithConsVars (state blk c) phys du) blk)"

definition rk4Alpha :: "real list" where
  "rk4Alpha = [0.25, 1 / 3, 0.5, 1]"

definition RK4TimeAdvance ::
  "varArray \<Rightarrow> physics \<Rightarrow> idx \<Rightarrow> nat \<Rightarrow> procBlock \<Rightarrow> error + procBlock" where
  "RK4TimeAdvance currState phys c rk blk =
     (let consVars = va_sub currState
                       (va_scale (dt blk c / vol blk c * (rk4Alpha ! rk)) (residual blk c))
      in checkedState c (insertState c (primitiveFromCons consVars phys) blk))"

subsection \<open>\<^verbatim>\<open>UpdateBlock\<close> and the residual norms\<close>

text \<open>
  Modelled from the spec: the class \<^verbatim>\<open>resid\<close> is declared in a header that is not
  part of the sources at hand.  It holds the L-infinity residual with the block, the cell
  indices and the equation where it was found ("update Linf with (block, i, j, k,
  equation)"); \<^verbatim>\<open>UpdateMax\<close> stores these six values.
\<close>

record resid =
  Linf :: real
  Block :: int
  ILoc :: int
  JLoc :: int
  KLoc :: int
  Eqn :: int

definition UpdateMax :: "real \<Rightarrow> int \<Rightarrow> int \<Rightarrow> int \<Rightarrow> int \<Rightarrow> int \<Rightarrow> resid \<Rightarrow> resid" where
  "UpdateMax a b ii jj kk e r = \<lparr>Linf = a, Block = b, ILoc = ii, JLoc = jj, KLoc = kk, Eqn = e\<rparr>"

definition Residual :: "procBlock \<Rightarrow> idx \<Rightarrow> nat \<Rightarrow> real" where
  "Residual blk c ll = data (residual blk c) ! ll"

text \<open>One pass of the loop over the equations \<open>ll\<close> that looks for a new L-infinity residual.\<close>

definition linfStep :: "procBlock \<Rightarrow> idx \<Rightarrow> nat \<Rightarrow> resid \<Rightarrow> resid" where
  "linfStep blk c ll linf =
     (case c of (ii, jj, kk) \<Rightarrow>
        if Residual blk c ll > Linf linf
        then UpdateMax (Residual blk c ll) (parBlock blk) ii jj kk (int ll + 1) linf
        else linf)"

definition accumulateNorms ::
  "input \<Rightarrow> procBlock \<Rightarrow> idx \<Rightarrow> varArray \<times> resid \<Rightarrow> varArray \<times> resid" where
  "accumulateNorms inp blk c norms =
     (case norms of (l2, linf) \<Rightarrow>
        (va_add l2 (va_mul (residual blk c) (residual blk c)),
         fold (linfStep blk c) [0..<NumEquations inp] linf))"

definition timeAdvance ::
  "input \<Rightarrow> physics \<Rightarrow> (idx \<Rightarrow> varArray) \<Rightarrow> nat \<Rightarrow> idx \<Rightarrow> procBlock \<Rightarrow> error + procBlock"
where
  "timeAdvance inp phys du rr c blk =
     (if TimeIntegration inp = ''explicitEuler'' then ExplicitEulerTimeAdvance phys c blk
      else if TimeIntegration inp = ''rk4'' then RK4TimeAdvance (consVarsN blk c) phys c rr blk
      else if IsImplicit inp then ImplicitTimeAdvance (du c) phys c blk
      else Inr blk)"

definition UpdateBlock_cell ::
  "input \<Rightarrow> physics \<Rightarrow> (idx \<Rightarrow> varArray) \<Rightarrow> nat \<Rightarrow> idx \<Rightarrow>
     procBlock \<times> varArray \<times> resid \<Rightarrow> error + procBlock \<times> varArray \<times> resid"
where
  "UpdateBlock_cell inp phys du rr c s =
     (case s of (blk, norms) \<Rightarrow>
        (case timeAdvance inp phys du rr c blk of
           Inl e \<Rightarrow> Inl e
         | Inr blk' \<Rightarrow> Inr (blk', accumulateNorms inp blk' c norms)))"

text \<open>
  Modelled from the spec: \<^verbatim>\<open>StartI\<close>, \<^verbatim>\<open>EndI\<close> (and the J, K forms) are declared in
  the block's header, which is not part of the sources at hand.  The loop they bound is
  commented "loop over all physical cells", and physical cell indices run from 0 to the
  number of cells.
\<close>

definition UpdateBlock ::
  "input \<Rightarrow> physics \<Rightarrow> (idx \<Rightarrow> varArray) \<Rightarrow> nat \<Rightarrow>
     procBlock \<times> varArray \<times> resid \<Rightarrow> error + procBlock \<times> varArray \<times> resid"
where
  "UpdateBlock inp phys du rr s =
     forEachCell (UpdateBlock_cell inp phys du rr)
       (cellRange (0, 0, 0) (NumI (fst s), NumJ (fst s), NumK (fst s))) s"

subsection \<open>Inviscid fluxes: \<^verbatim>\<open>CalcInvFluxI\<close>, \<^verbatim>\<open>CalcInvFluxJ\<close>, \<^verbatim>\<open>CalcInvFluxK\<close>\<close>

text \<open>
  The reconstructions and the flux function are kernels outside the block; they are
  parameters of the embedding.
\<close>

record kernels =
  FaceReconConst :: "varArray \<Rightarrow> varArray"
  FaceReconMUSCL ::
    "varArray \<Rightarrow> varArray \<Rightarrow> varArray \<Rightarrow> real \<Rightarrow> string \<Rightarrow> real \<Rightarrow> real \<Rightarrow> real \<Rightarrow> varArray"
  FaceReconWENO ::
    "varArray \<Rightarrow> varArray \<Rightarrow> varArray \<Rightarrow> varArray \<Rightarrow> varArray \<Rightarrow>
       real \<Rightarrow> real \<Rightarrow> real \<Rightarrow> real \<Rightarrow> real \<Rightarrow> bool \<Rightarrow> varArray"
  InviscidFlux :: "varArray \<Rightarrow> varArray \<Rightarrow> vec3 \<Rightarrow> string \<Rightarrow> varArray"

text \<open>
  The three routines are the same text up to the direction of the faces: the neighbour
  at distance \<open>n\<close> of a face index is taken along i, j or k, and the arrays
  \<^verbatim>\<open>cellWidthI_\<close>, \<^verbatim>\<open>FAreaUnitI\<close>, \<^verbatim>\<open>FAreaMagI\<close> become their J and K forms.  The
  embedding takes the direction name as a parameter; \<open>CalcInvFluxI\<close> is the instance
  for \<open>''i''\<close>.
\<close>

definition coord :: "string \<Rightarrow> idx \<Rightarrow> int" where
  "coord dir ind =
     (case ind of (i, j, k) \<Rightarrow> if dir = ''i'' then i else if dir = ''j'' then j else k)"

definition faceStateLower :: "kernels \<Rightarrow> input \<Rightarrow> string \<Rightarrow> procBlock \<Rightarrow> idx \<Rightarrow> varArray" where
  "faceStateLower K inp dir blk f =
     (let st = (\<lambda>n. state blk (shiftIdx dir n f)); cw = (\<lambda>n. cellWidth blk dir (shiftIdx dir n f))
      in if OrderOfAccuracy inp = ''first'' then FaceReconConst K (st (- 1))
         else if UsingMUSCLReconstruction inp
         then FaceReconMUSCL K (st (- 2)) (st (- 1)) (st 0) (Kappa inp) (Limiter inp)
                (cw (- 2)) (cw (- 1)) (cw 0)
         else FaceReconWENO K (st (- 3)) (st (- 2)) (st (- 1)) (st 0) (st 1)
                (cw (- 3)) (cw (- 2)) (cw (- 1)) (cw 0) (cw 1) (IsWenoZ inp))"

definition faceStateUpper :: "kernels \<Rightarrow> input \<Rightarrow> string \<Rightarrow> procBlock \<Rightarrow> idx \<Rightarrow> varArray" where
  "faceStateUpper K inp dir blk f =
     (let st = (\<lambda>n. state blk (shiftIdx dir n f)); cw = (\<lambda>n. cellWidth blk dir (shiftIdx dir n f))
      in if OrderOfAccuracy inp = ''first'' then FaceReconConst K (st 0)
         else if UsingMUSCLReconstruction inp
         then FaceReconMUSCL K (st 1) (st 0) (st (- 1)) (Kappa inp) (Limiter inp)
                (cw 1) (cw 0) (cw (- 1))
         else FaceReconWENO K (st 2) (st 1) (st 0) (st (- 1)) (st (- 2))
                (cw 2) (cw 1) (cw 0) (cw (- 1)) (cw (- 2)) (IsWenoZ inp))"

text \<open>
  Modelled from the spec: \<^verbatim>\<open>PhysStartI\<close>, \<^verbatim>\<open>PhysEndI\<close> (and the J, K forms) of the
  face arrays belong to the multi-dimensional array header, which is not part of the
  sources at hand.  Physical indices start at 0, and a block of \<open>N\<close> cells along a
  direction has \<open>N + 1\<close> faces of that family along it and \<open>N\<close> along the other two
  ("face counts are (N_i+1) N_j N_k, etc.").
\<close>

definition facePhysStart :: "string \<Rightarrow> procBlock \<Rightarrow> idx" where
  "facePhysStart dir blk = (0, 0, 0)"

definition facePhysEnd :: "string \<Rightarrow> procBlock \<Rightarrow> idx" where
  "facePhysEnd dir blk = shiftIdx dir 1 (NumI blk, NumJ blk, NumK blk)"

definition AddToResidual :: "idx \<Rightarrow> varArray \<Rightarrow> procBlock \<Rightarrow> procBlock" where
  "AddToResidual c arr blk = blk\<lparr>residual := (residual blk)(c := va_add (residual blk c) arr)\<rparr>"

definition SubtractFromResidual :: "idx \<Rightarrow> varArray \<Rightarrow> procBlock \<Rightarrow> procBlock" where
  "SubtractFromResidual c arr blk =
     blk\<lparr>residual := (residual blk)(c := va_sub (residual blk c) arr)\<rparr>"

text \<open>The flux through a face times the magnitude of the face area.\<close>

definition faceFluxArea :: "kernels \<Rightarrow> input \<Rightarrow> string \<Rightarrow> procBlock \<Rightarrow> idx \<Rightarrow> varArray" where
  "faceFluxArea K inp dir blk f =
     va_scale (fAreaMag blk dir f)
       (InviscidFlux K (faceStateLower K inp dir blk f) (faceStateUpper K inp dir blk f)
          (fAreaUnit blk dir f) (InviscidFluxName inp))"

text \<open>
  The body of the loop over the faces.  The accumulation of the spectral radius and of
  the flux Jacobians, which write the arrays \<^verbatim>\<open>specRadius_\<close> and
  \<^verbatim>\<open>mainDiagonal\<close> only, is left out.
\<close>

definition CalcInvFlux_face ::
  "kernels \<Rightarrow> input \<Rightarrow> string \<Rightarrow> idx \<Rightarrow> procBlock \<Rightarrow> error + procBlock" where
  "CalcInvFlux_face K inp dir f blk =
     (let lower = faceStateLower K inp dir blk f;
          upper = faceStateUpper K inp dir blk f
      in MSG_ASSERT (Rho lower > 0) NonphysicalDensity
        (MSG_ASSERT (primP lower > 0) NonphysicalPressure
        (MSG_ASSERT (Rho upper > 0) NonphysicalDensity
        (MSG_ASSERT (primP upper > 0) NonphysicalPressure
        (let tempFlux = InviscidFlux K lower upper (fAreaUnit blk dir f) (InviscidFluxName inp);
             blk1 = (if coord dir f > coord dir (facePhysStart dir blk)
                     then AddToResidual (shiftIdx dir (- 1) f)
                            (va_scale (fAreaMag blk dir f) tempFlux) blk
                     else blk);
             blk2 = (if coord dir f < coord dir (facePhysEnd dir blk) - 1
                     then SubtractFromResidual f (va_scale (fAreaMag blk dir f) tempFlux) blk1
                     else blk1)
         in Inr blk2)))))"

definition CalcInvFlux :: "kernels \<Rightarrow> input \<Rightarrow> string \<Rightarrow> procBlock \<Rightarrow> error + procBlock" where
  "CalcInvFlux K inp dir blk =
     forEachCell (CalcInvFlux_face K inp dir)
       (cellRange (facePhysStart dir blk) (facePhysEnd dir blk)) blk"

definition CalcInvFluxI :: "kernels \<Rightarrow> input \<Rightarrow> procBlock \<Rightarrow> error + procBlock" where
  "CalcInvFluxI K inp blk = CalcInvFlux K inp ''i'' blk"

definition CalcInvFluxJ :: "kernels \<Rightarrow> input \<Rightarrow> procBlock \<Rightarrow> error + procBlock" where
  "CalcInvFluxJ K inp blk = CalcInvFlux K inp ''j'' blk"

definition CalcInvFluxK :: "kernels \<Rightarrow> input \<Rightarrow> procBlock \<Rightarrow> error + procBlock" where
  "CalcInvFluxK K inp blk = CalcInvFlux K inp ''k'' blk"

section \<open>Restart files: \<^verbatim>\<open>WriteRestart\<close> and \<^verbatim>\<open>ReadRestart\<close>\<close>

text \<open>
  The two routines cast the address of a variable to a pointer to characters and copy its
  bytes.  The restart schema of the specification is "little-endian, native
  doubles/ints": the bytes of a value are listed from the least significant one.
\<close>

type_synonym byte = "8 word"
type_synonym int32 = "32 word"
type_synonym word64 = "64 word"

fun leBytes :: "nat \<Rightarrow> 'a::len word \<Rightarrow> byte list" where
  "leBytes 0 w = []"
| "leBytes (Suc n) w = ucast w # leBytes n (drop_bit 8 w)"

fun leWord :: "byte list \<Rightarrow> 'a::len word" where
  "leWord [] = 0"
| "leWord (b # bs) = ucast b OR push_bit 8 (leWord bs)"

text \<open>The characters of a species name and the bytes that hold them.\<close>

definition byteOfChar :: "char \<Rightarrow> byte" where
  "byteOfChar c = word_of_nat (of_char c)"

definition charOfByte :: "byte \<Rightarrow> char" where
  "charOfByte b = char_of (unat b)"

text \<open>
  \<^verbatim>\<open>outFile.write\<close> of an \<^verbatim>\<open>int\<close>, of a \<^verbatim>\<open>size_t\<close> and of a \<^verbatim>\<open>double\<close>.
\<close>

definition writeInt :: "int32 \<Rightarrow> byte list" where
  "writeInt w = leBytes 4 w"

definition writeSize :: "word64 \<Rightarrow> byte list" where
  "writeSize w = leBytes 8 w"

definition writeDouble :: "word64 \<Rightarrow> byte list" where
  "writeDouble w = leBytes 8 w"

text \<open>
  \<^verbatim>\<open>fName.read\<close> into a variable that holds the bytes \<open>old\<close>: as many bytes as the
  variable has are taken from the stream \<open>s\<close>; when the stream ends before, the bytes
  that were not read keep their old value and nothing is left of the stream, so that
  every later read leaves its variable as it was.  The integers are initialised to zero
  before they are read.
\<close>

definition readInto :: "byte list \<Rightarrow> byte list \<Rightarrow> byte list \<times> byte list" where
  "readInto old s = (take (length old) s @ drop (length s) old, drop (length old) s)"

definition readInt :: "byte list \<Rightarrow> int32 \<times> byte list" where
  "readInt s = (case readInto (replicate 4 0) s of (bs, s') \<Rightarrow> (leWord bs, s'))"

definition readSize :: "byte list \<Rightarrow> word64 \<times> byte list" where
  "readSize s = (case readInto (replicate 8 0) s of (bs, s') \<Rightarrow> (leWord bs, s'))"

text \<open>The list \<^verbatim>\<open>restartVars\<close> built by \<^verbatim>\<open>WriteRestart\<close>.\<close>

definition restartVars :: "input \<Rightarrow> string list" where
  "restartVars inp =
     [''density'', ''vel_x'', ''vel_y'', ''vel_z'', ''pressure'']
     @ (if IsRANS inp then [''tke'', ''sdr''] else [])
     @ map (\<lambda>ii. ''mf_'' @ FluidNames inp ! ii) [0..<NumSpecies inp]"

text \<open>
  Modelled from the spec: \<^verbatim>\<open>WriteBlockDims\<close> is a template of a header that is not
  part of the sources at hand.  The restart schema of the specification is
  \<^verbatim>\<open>[numBlks:i32] (per block: [Ni,Nj,Nk,numVars : i32 x 4]) x numBlks\<close>: the number of
  blocks, then for each block its three dimensions and the variable count passed by the
  caller.
\<close>

definition WriteBlockDims :: "(int32 \<times> int32 \<times> int32) list \<Rightarrow> nat \<Rightarrow> byte list" where
  "WriteBlockDims vars numVars =
     writeInt (word_of_nat (length vars))
     @ concat (map (\<lambda>(ni, nj, nk).
                      writeInt ni @ writeInt nj @ writeInt nk @ writeInt (word_of_nat numVars))
                   vars)"

text \<open>
  \<^verbatim>\<open>WriteRestart\<close> up to the block dimensions: the size and the characters of each
  species name, the residuals, and the block dimensions follow the four leading
  integers.  \<open>opened\<close> tells whether the output file could be opened; \<open>vars\<close> are the
  dimensions of the recombined blocks.  The values of the cells, which the routine
  writes after the block dimensions, are not embedded.
\<close>

definition writeSpeciesName :: "string \<Rightarrow> byte list" where
  "writeSpeciesName specName =
     writeSize (word_of_nat (length specName)) @ map byteOfChar specName"

definition WriteRestart ::
  "input \<Rightarrow> bool \<Rightarrow> int32 \<Rightarrow> word64 list \<Rightarrow> (int32 \<times> int32 \<times> int32) list \<Rightarrow>
     error + byte list"
where
  "WriteRestart inp opened solIter residL2First vars =
     (if \<not> opened then Inl RestartNotOpened
      else Inr (writeInt (if IsMultilevelInTime inp then 2 else 1)
                @ writeInt solIter
                @ writeInt (word_of_nat (NumEquations inp))
                @ writeInt (word_of_nat (NumSpecies inp))
                @ concat (map (\<lambda>ii. writeSpeciesName (FluidNames inp ! ii)) [0..<NumSpecies inp])
                @ concat (map writeDouble residL2First)
                @ WriteBlockDims vars (length (restartVars inp))))"

text \<open>
  The loop that reads the species names: the size of the name, then a zero-filled buffer
  of that size read from the stream.
\<close>

fun readSpeciesNames :: "nat \<Rightarrow> byte list \<Rightarrow> string list \<times> byte list" where
  "readSpeciesNames 0 s = ([], s)"
| "readSpeciesNames (Suc n) s =
     (case readSize s of (nameSize, s1) \<Rightarrow>
      case readInto (replicate (unat nameSize) 0) s1 of (buffer, s2) \<Rightarrow>
      case readSpeciesNames n s2 of (names, s3) \<Rightarrow>
        (map charOfByte buffer # names, s3))"

text \<open>
  The loop \<^verbatim>\<open>for (auto ii = 0; ii < numBlks; ii++)\<close> that reads the four integers of
  each block and compares them with the grid.
\<close>

fun checkBlockSizes ::
  "int32 \<Rightarrow> (int32 \<times> int32 \<times> int32) list \<Rightarrow> nat list \<Rightarrow> byte list \<Rightarrow> error + byte list"
where
  "checkBlockSizes numEqns gridSizes [] s = Inr s"
| "checkBlockSizes numEqns gridSizes (ii # rest) s =
     (case readInt s of (numI, s1) \<Rightarrow>
      case readInt s1 of (numJ, s2) \<Rightarrow>
      case readInt s2 of (numK, s3) \<Rightarrow>
      case readInt s3 of (numVars, s4) \<Rightarrow>
      case gridSizes ! ii of (gx, gy, gz) \<Rightarrow>
        if numI \<noteq> gx \<or> numJ \<noteq> gy \<or> numK \<noteq> gz \<or> numVars - 1 \<noteq> numEqns
        then Inl RestartBlockSize
        else checkBlockSizes numEqns gridSizes rest s4)"

text \<open>
  \<^verbatim>\<open>ReadRestart\<close> up to the check of the block sizes.  The restart file is \<open>None\<close>
  when it did not open.  \<open>residL2First\<close> is the residual of the caller, into which as
  many doubles are read as it holds.  A negative number of species makes the constructor
  of the vector of names throw, which ends the run.  On success the routine goes on with
  the iteration number, the bytes now held by the residual, the list of variables to
  read and the rest of the stream.
\<close>

record restartRead =
  iterationStart :: int32
  residualBytes :: "byte list"
  restartVarsRead :: "string list"
  afterHeader :: "byte list"

definition ReadRestart ::
  "input \<Rightarrow> byte list option \<Rightarrow> word64 list \<Rightarrow> (int32 \<times> int32 \<times> int32) list \<Rightarrow>
     error + restartRead"
where
  "ReadRestart inp file residL2First gridSizes =
     (case file of
        None \<Rightarrow> Inl RestartNotOpened
      | Some s0 \<Rightarrow>
          case readInt s0 of (numSols, s1) \<Rightarrow>
          case readInt s1 of (iterNum, s2) \<Rightarrow>
          case readInt s2 of (numEqns, s3) \<Rightarrow>
          case readInt s3 of (numSpec, s4) \<Rightarrow>
          if sint numSpec < 0 then Inl RestartSpeciesCount
          else
          case readSpeciesNames (nat (sint numSpec)) s4 of (speciesNames, s5) \<Rightarrow>
          if \<not> CheckSpeciesPasses inp speciesNames then Inl RestartSpeciesUndefined
          else
          case readInto (concat (map writeDouble residL2First)) s5 of (resid, s6) \<Rightarrow>
          case readInt s6 of (numBlks, s7) \<Rightarrow>
          if numBlks \<noteq> word_of_nat (length gridSizes) then Inl RestartBlockCount
          else (case checkBlockSizes numEqns gridSizes [0..<nat (sint numBlks)] s7 of
                  Inl e \<Rightarrow> Inl e
                | Inr s8 \<Rightarrow>
                    Inr \<lparr>iterationStart = iterNum,
                         residualBytes = resid,
                         restartVarsRead =
                           [''density'', ''vel_x'', ''vel_y'', ''vel_z'', ''pressure'']
                           @ (if numEqns = numSpec + 6 then [''tke'', ''sdr''] else [])
                           @ map (\<lambda>spec. ''mf_'' @ spec) speciesNames,
                         afterHeader = s8\<rparr>))"

text \<open>
  Modelled from the spec: \<^verbatim>\<open>input::NumEquations\<close> is defined outside the sources at
  hand.  The specification fixes the equation count as the number of species plus four,
  plus two for a RANS simulation, and one fluid name per species.
\<close>

definition inputInvariant :: "input \<Rightarrow> bool" where
  "inputInvariant inp =
     (NumEquations inp = NumSpecies inp + 4 + (if IsRANS inp then 2 else 0) \<and>
      length (FluidNames inp) = NumSpecies inp)"

subsection \<open>The restart format\<close>

text \<open>
  Modelled from the spec: the head of a restart file has the schema
  \<^verbatim>\<open>[numSols:i32][iter:i32][numEqns:i32][numSpec:i32]([nameSize:size_t][name:char*nameSize])
  x numSpec [residL2First : numEqns x f64][numBlks:i32] (per block: [Ni,Nj,Nk,numVars : i32 x 4])
  x numBlks\<close>.  A header is the record of these values and \<open>headerBytes\<close> lays them out;
  it is well formed when the two counts are the lengths of the lists they announce.
  The residual block of a header is a list of any length, since \<^verbatim>\<open>WriteRestart\<close> writes
  as many doubles as the residual of its caller holds.
  \<open>writtenHeader\<close> names the values that \<^verbatim>\<open>WriteRestart\<close> stores.
\<close>

record restartHeader =
  numSolsF :: int32
  iterF :: int32
  numEqnsF :: int32
  numSpeciesF :: int32
  speciesNamesF :: "string list"
  residL2FirstF :: "word64 list"
  numBlksF :: int32
  blkDimsF :: "(int32 \<times> int32 \<times> int32 \<times> int32) list"

definition blockDimsBytes :: "int32 \<times> int32 \<times> int32 \<times> int32 \<Rightarrow> byte list" where
  "blockDimsBytes d =
     (case d of (ni, nj, nk, nv) \<Rightarrow> writeInt ni @ writeInt nj @ writeInt nk @ writeInt nv)"

definition headerBytes :: "restartHeader \<Rightarrow> byte list" where
  "headerBytes h =
     writeInt (numSolsF h) @ writeInt (iterF h) @ writeInt (numEqnsF h)
     @ writeInt (numSpeciesF h)
     @ concat (map writeSpeciesName (speciesNamesF h))
     @ concat (map writeDouble (residL2FirstF h))
     @ writeInt (numBlksF h)
     @ concat (map blockDimsBytes (blkDimsF h))"

definition wellFormedHeader :: "restartHeader \<Rightarrow> bool" where
  "wellFormedHeader h =
     (length (speciesNamesF h) < 2 ^ 31 \<and>
      numSpeciesF h = word_of_nat (length (speciesNamesF h)) \<and>
      list_all (\<lambda>name. length name < 2 ^ 64) (speciesNamesF h) \<and>
      length (blkDimsF h) < 2 ^ 31 \<and>
      numBlksF h = word_of_nat (length (blkDimsF h)))"

text \<open>
  The mismatches between a header and the current grid that the two checks of
  \<^verbatim>\<open>ReadRestart\<close> look for: another number of blocks, and a block with another
  dimension or with a variable count that is not the number of equations of the header
  plus one.
\<close>

definition blockCountDiffers :: "restartHeader \<Rightarrow> (int32 \<times> int32 \<times> int32) list \<Rightarrow> bool" where
  "blockCountDiffers h gridSizes = (numBlksF h \<noteq> word_of_nat (length gridSizes))"

definition blockDiffers ::
  "restartHeader \<Rightarrow> (int32 \<times> int32 \<times> int32) list \<Rightarrow> nat \<Rightarrow> bool" where
  "blockDiffers h gridSizes ii =
     (case blkDimsF h ! ii of (numI, numJ, numK, numVars) \<Rightarrow>
      case gridSizes ! ii of (gx, gy, gz) \<Rightarrow>
        numI \<noteq> gx \<or> numJ \<noteq> gy \<or> numK \<noteq> gz \<or> numVars - 1 \<noteq> numEqnsF h)"

definition someBlockDiffers :: "restartHeader \<Rightarrow> (int32 \<times> int32 \<times> int32) list \<Rightarrow> bool" where
  "someBlockDiffers h gridSizes = list_ex (blockDiffers h gridSizes) [0..<length gridSizes]"

definition writtenHeader ::
  "input \<Rightarrow> int32 \<Rightarrow> word64 list \<Rightarrow> (int32 \<times> int32 \<times> int32) list \<Rightarrow> restartHeader" where
  "writtenHeader inp solIter residL2First vars =
     \<lparr>numSolsF = (if IsMultilevelInTime inp then 2 else 1),
      iterF = solIter,
      numEqnsF = word_of_nat (NumEquations inp),
      numSpeciesF = word_of_nat (NumSpecies inp),
      speciesNamesF = map (\<lambda>ii. FluidNames inp ! ii) [0..<NumSpecies inp],
      residL2FirstF = residL2First,
      numBlksF = word_of_nat (length vars),
      blkDimsF = map (\<lambda>(ni, nj, nk). (ni, nj, nk, word_of_nat (NumEquations inp) + 1)) vars\<rparr>"

section \<open>Ghost cells\<close>











subsection \<open>\<^verbatim>\<open>AssignInviscidGhostCells\<close>\<close>




subsection \<open>\<^verbatim>\<open>AssignInviscidGhostCellsEdge\<close>\<close>








subsection \<open>\<^verbatim>\<open>AssignViscousGhostCells\<close> and \<^verbatim>\<open>CalcResidualNoSource\<close>\<close>




subsection \<open>Notions used to state the properties of the ghost-cell passes\<close>









subsection \<open>Notions used to state the properties of the block routines\<close>

text \<open>
  The reconstructed states at a face are physical when density and pressure are positive
  on both sides; a run has failed when it ended in an exit.
\<close>

definition reconstructionPhysical :: "kernels \<Rightarrow> input \<Rightarrow> string \<Rightarrow> procBlock \<Rightarrow> idx \<Rightarrow> bool" where
  "reconstructionPhysical K inp dir blk f =
     (Rho (faceStateLower K inp dir blk f) > 0 \<and> primP (faceStateLower K inp dir blk f) > 0 \<and>
      Rho (faceStateUpper K inp dir blk f) > 0 \<and> primP (faceStateUpper K inp dir blk f) > 0)"

definition isFailure :: "error + 'a \<Rightarrow> bool" where
  "isFailure r = (case r of Inl e \<Rightarrow> True | Inr x \<Rightarrow> False)"

text \<open>The physical cells of a block and the index list of the faces of one family.\<close>

definition physicalCell :: "procBlock \<Rightarrow> idx \<Rightarrow> bool" where
  "physicalCell blk c =
     (case c of (i, j, k) \<Rightarrow> 0 \<le> i \<and> i < NumI blk \<and> 0 \<le> j \<and> j < NumJ blk \<and> 0 \<le> k \<and> k < NumK blk)"

definition faceRange :: "string \<Rightarrow> procBlock \<Rightarrow> idx list" where
  "faceRange dir blk = cellRange (facePhysStart dir blk) (facePhysEnd dir blk)"

text \<open>
  The residual array after the body of the face loop has run at one face with physical
  reconstructed states, and the change this makes at one cell.
\<close>

definition faceUpdate ::
  "kernels \<Rightarrow> input \<Rightarrow> string \<Rightarrow> procBlock \<Rightarrow> idx \<Rightarrow> (idx \<Rightarrow> varArray) \<Rightarrow> idx \<Rightarrow> varArray" where
  "faceUpdate K inp dir blk f r =
     (let fa = faceFluxArea K inp dir blk f;
          r1 = (if coord dir f > coord dir (facePhysStart dir blk)
                then r(shiftIdx dir (- 1) f := va_add (r (shiftIdx dir (- 1) f)) fa) else r)
      in if coord dir f < coord dir (facePhysEnd dir blk) - 1
         then r1(f := va_sub (r1 f) fa) else r1)"

definition cellContribution ::
  "kernels \<Rightarrow> input \<Rightarrow> string \<Rightarrow> procBlock \<Rightarrow> idx \<Rightarrow> idx \<Rightarrow> varArray \<Rightarrow> varArray" where
  "cellContribution K inp dir blk c f x =
     (if c = shiftIdx dir (- 1) f \<and> coord dir f > coord dir (facePhysStart dir blk)
      then va_add x (faceFluxArea K inp dir blk f)
      else if c = f \<and> coord dir f < coord dir (facePhysEnd dir blk) - 1
      then va_sub x (faceFluxArea K inp dir blk f)
      else x)"

text \<open>
  The clamped mass fractions and the rebuilt species densities computed inside
  \<^verbatim>\<open>UpdatePrimWithCons\<close> from the advanced conserved record.
\<close>

definition clampedFractions :: "varArray \<Rightarrow> real list" where
  "clampedFractions cu = map (\<lambda>frac. max frac 0) (MassFractions cu)"

definition renormalizedSpecies :: "varArray \<Rightarrow> real list" where
  "renormalizedSpecies cu =
     map (\<lambda>m. Rho cu * m)
       (map (\<lambda>frac. frac / sum_list (clampedFractions cu)) (clampedFractions cu))"

subsection \<open>A concrete block\<close>

definition exPhysics :: physics where
  "exPhysics = \<lparr>PrimEnergy = (\<lambda>v. 7), PressFromEnergy = (\<lambda>rs e vm. 1), LimitTurbN = (\<lambda>ts. ts)\<rparr>"

definition exPrimitive :: varArray where
  "exPrimitive = \<lparr>data = [3, 1, 2, 0, 0, 5], numSpecies = 2\<rparr>"

definition exUpdate :: varArray where
  "exUpdate = \<lparr>data = [- 4, 1, 0, 0, 0, 0], numSpecies = 2\<rparr>"

definition exResidual :: varArray where
  "exResidual = \<lparr>data = [- 5, 1 / 2, 0, 0, 0, 0], numSpecies = 2\<rparr>"

definition exInput :: input where
  "exInput = \<lparr>Dt = 0, ARef = 340, LRef = 1, CFL = 2, TimeIntegration = ''implicitEuler'',
     IsImplicit = True, NumEquations = 6, OrderOfAccuracy = ''first'',
     UsingMUSCLReconstruction = False, Kappa = 0, Limiter = ''none'', IsWenoZ = False,
     InviscidFluxName = ''roe'', NumSpecies = 2, IsRANS = False,
     FluidNames = [''N2'', ''O2''], IsMultilevelInTime = False,
     CheckSpeciesPasses = (\<lambda>names. set names \<subseteq> {''N2'', ''O2''})\<rparr>"

definition exWallSurface :: boundarySurface where
  "exWallSurface = \<lparr>BCType = ''viscousWall'', Tag = 1, SurfaceType = 3, Direction3 = ''j'',
     RangeDir1 = (0, 1), RangeDir2 = (0, 2), RangeDir3Start = 0, IsConnection = False\<rparr>"

definition exOutletSurface :: boundarySurface where
  "exOutletSurface = \<lparr>BCType = ''pressureOutlet'', Tag = 2, SurfaceType = 5,
     Direction3 = ''k'', RangeDir1 = (0, 2), RangeDir2 = (0, 1), RangeDir3Start = 0,
     IsConnection = False\<rparr>"

definition exBlock :: procBlock where
  "exBlock = \<lparr>NumI = 2, NumJ = 1, NumK = 1, numGhosts = 2, parBlock = 0,
     isViscous = False, isTurbulent = False,
     bc = \<lparr>surfaces = [exWallSurface, exOutletSurface],
           GetBCSurface = (\<lambda>c surfType. if surfType = 3 then exWallSurface
                                        else exOutletSurface)\<rparr>,
     wallDist = (\<lambda>c. 1), viscosity = (\<lambda>c. 1),
     state = (\<lambda>c. exPrimitive), consVarsN = (\<lambda>c. exPrimitive),
     residual = (\<lambda>c. exResidual), dt = (\<lambda>c. 0), vol = (\<lambda>c. 3),
     specRadius = (\<lambda>c. \<lparr>flowVar = 4, turbVar = 1\<rparr>),
     fAreaUnit = (\<lambda>d c. (1, 0, 0)), fAreaMag = (\<lambda>d c. 2), cellWidth = (\<lambda>d c. 1)\<rparr>"

definition exFluxBlock :: procBlock where
  "exFluxBlock = exBlock\<lparr>fAreaMag := (\<lambda>d c. if c = (1, 0, 0) then 3 else 2)\<rparr>"

definition exKernels :: kernels where
  "exKernels = \<lparr>FaceReconConst = (\<lambda>v. v),
     FaceReconMUSCL = (\<lambda>a b c kap lim w1 w2 w3. b),
     FaceReconWENO = (\<lambda>a b c d e w1 w2 w3 w4 w5 z. c),
     InviscidFlux = (\<lambda>l u n nm. l)\<rparr>"

definition exL2 :: varArray where
  "exL2 = \<lparr>data = [0, 0, 0, 0, 0, 0], numSpecies = 2\<rparr>"

definition exLinf :: resid where
  "exLinf = \<lparr>Linf = 1, Block = 7, ILoc = 3, JLoc = 0, KLoc = 0, Eqn = 2\<rparr>"


text \<open>
  A restart header with two species and one block, the residual and the grid of its
  reader, a residual of another length, some cell data, and an input whose species check
  accepts no species.
\<close>

definition exGrid :: "(int32 \<times> int32 \<times> int32) list" where
  "exGrid = [(2, 1, 1)]"

definition exResid :: "word64 list" where
  "exResid = [1, 2, 3, 4, 5, 6]"

definition exHeader :: restartHeader where
  "exHeader = \<lparr>numSolsF = 1, iterF = 10, numEqnsF = 6, numSpeciesF = 2,
     speciesNamesF = [''N2'', ''O2''], residL2FirstF = exResid, numBlksF = 1,
     blkDimsF = [(2, 1, 1, 7)]\<rparr>"

definition exCellData :: "byte list" where
  "exCellData = [0, 0, 0, 0, 0, 0, 240, 63]"

definition exResid8 :: "word64 list" where
  "exResid8 = [1, 2, 3, 4, 5, 6, 7, 8]"

definition exStrictInput :: input where
  "exStrictInput = exInput\<lparr>CheckSpeciesPasses := (\<lambda>names. names = [])\<rparr>"

section \<open>Verified properties\<close>

subsection \<open>Surface types\<close>

lemma surf_cases:
  "s \<in> {1..6} \<Longrightarrow> s = 1 \<or> s = 2 \<or> s = 3 \<or> s = 4 \<or> s = 5 \<or> s = (6::int)"
  by (simp, presburger)

lemma lower_simps:
  "isLowerSurface 1" "\<not> isLowerSurface 2" "isLowerSurface 3"
  "\<not> isLowerSurface 4" "isLowerSurface 5" "\<not> isLowerSurface 6"
  by (simp_all add: isLowerSurface_def smod_int_alt_def)

lemma upper_simps:
  "\<not> isUpperSurface 1" "isUpperSurface 2" "\<not> isUpperSurface 3"
  "isUpperSurface 4" "\<not> isUpperSurface 5" "isUpperSurface 6"
  by (simp_all add: isUpperSurface_def smod_int_alt_def)

lemma surf_lower_or_upper:
  "s \<in> {1..6} \<Longrightarrow> isLowerSurface s \<noteq> isUpperSurface s"
  using surf_cases[of s] lower_simps upper_simps by auto

subsection \<open>Sign of the exchanged direction-3 face areas\<close>

lemma aFac3_sameSide:
  assumes "BoundaryFirst cn \<in> {1..6}" "BoundarySecond cn \<in> {1..6}"
  shows "aFac3 cn =
    (if isLowerSurface (BoundaryFirst cn) = isLowerSurface (BoundarySecond cn) then - 1 else 1)"
  using surf_cases[OF assms(1)] surf_cases[OF assms(2)]
  by (auto simp: aFac3_def lower_simps smod_int_alt_def)

lemma scaleV_m1: "scaleV (- 1) v = negV v" "scaleV 1 v = v"
  by (auto simp: scaleV_def negV_def split: prod.splits)

lemma pairing_dichotomy:
  assumes "BoundaryFirst cn \<in> {1..6}" "BoundarySecond cn \<in> {1..6}"
  shows "sameSidePairing cn \<longleftrightarrow> \<not> lowerUpperPairing cn"
    and "sameSidePairing cn \<longleftrightarrow>
           isLowerSurface (BoundaryFirst cn) = isLowerSurface (BoundarySecond cn)"
  using surf_lower_or_upper[OF assms(1)] surf_lower_or_upper[OF assms(2)]
  by (auto simp: sameSidePairing_def lowerUpperPairing_def)

lemma nextDir_ne: "knownDir d \<Longrightarrow> nextDir d \<noteq> d" "knownDir d \<Longrightarrow> nextDir (nextDir d) \<noteq> d"
  by (auto simp: knownDir_def nextDir_def)

lemma read_write:
  "readFArea d (writeFArea d' i v g) =
     (if d = d' \<or> (d \<noteq> ''i'' \<and> d \<noteq> ''j'' \<and> d' \<noteq> ''i'' \<and> d' \<noteq> ''j'')
      then (readFArea d g)(i := v) else readFArea d g)"
  by (rule ext) (auto simp: readFArea_def writeFArea_def)

lemma read_write_known:
  assumes "knownDir d" 
  shows "readFArea d (writeFArea d i v g) = (readFArea d g)(i := v)"
    and "readFArea d (writeFArea (nextDir d) i v g) = readFArea d g"
    and "readFArea d (writeFArea (nextDir (nextDir d)) i v g) = readFArea d g"
  using assms by (auto simp: read_write knownDir_def nextDir_def)

lemma read_vol [simp]: "readFArea d (g\<lparr>Vol := v\<rparr>) = readFArea d g"
  by (rule ext) (simp add: readFArea_def)

lemma read_swap12:
  assumes "knownDir d"
  shows "readFArea d (swapFaceDir12 a (nextDir d) fS e sl iB iS g) = readFArea d g"
    and "readFArea d (swapFaceDir12 a (nextDir (nextDir d)) fS e sl iB iS g) = readFArea d g"
  by (simp_all add: swapFaceDir12_def Let_def read_write_known[OF assms])

lemma cell_effect:
  assumes "PutGeomSlice_cell S gslice cn d3 ng l (blk, adj) = Inr (blk', adj')"
  shows "readFArea (Direction3First cn) blk' =
           fold (areaUpdate cn (arrays gslice)) (dir3ExchangesAt S gslice cn d3 ng l)
             (readFArea (Direction3First cn) blk)"
proof -
  obtain l1 l2 l3 where l: "l = (l1, l2, l3)" by (cases l)
  let ?indS = "GetSwapLoc S l1 l2 l3 (GhostLayers gslice) cn d3 False"
  show ?thesis
  proof (cases "Vol (arrays gslice) ?indS = 0")
    case True
    then have "blk' = blk"
      using assms unfolding l PutGeomSlice_cell_def
      by (auto simp: Let_def split: option.splits if_splits)
    then show ?thesis using True by (simp add: l dir3ExchangesAt_def Let_def)
  next
    case False
    have k: "knownDir (Direction3First cn)" "knownDir (Direction3Second cn)"
      using assms False unfolding l PutGeomSlice_cell_def
      by (auto simp: Let_def split: if_splits)
    have b: "blk' = swapFaceDir12 (aFac2 cn) (nextDir (nextDir (Direction3First cn)))
                 (nextDir (nextDir (Direction3Second cn)))
                 (l2 = Dir2EndFirst cn - Dir2StartFirst cn - 1) (arrays gslice)
                 (GetSwapLoc S l1 l2 l3 ng cn d3 True) ?indS
               (swapFaceDir12 (aFac1 cn) (nextDir (Direction3First cn))
                 (nextDir (Direction3Second cn))
                 (l1 = Dir1EndFirst cn - Dir1StartFirst cn - 1) (arrays gslice)
                 (GetSwapLoc S l1 l2 l3 ng cn d3 True) ?indS
               (swapFaceDir3 cn (arrays gslice) l3 d3 (GetSwapLoc S l1 l2 l3 ng cn d3 True) ?indS
                 (blk\<lparr>Vol := (Vol blk)(GetSwapLoc S l1 l2 l3 ng cn d3 True :=
                     Vol (arrays gslice) ?indS)\<rparr>)))"
      using assms False k unfolding l PutGeomSlice_cell_def
      by (simp add: Let_def)
    show ?thesis
      unfolding b read_swap12[OF k(1)]
      using False
      by (simp add: l dir3ExchangesAt_def swapFaceDir3_def Let_def read_write_known[OF k(1)]
          areaUpdate_def)
  qed
qed

lemma loop_effect:
  assumes "forEachCell (PutGeomSlice_cell S gslice cn d3 ng) cs (blk, adj) = Inr (blk', adj')"
  shows "readFArea (Direction3First cn) blk' =
           fold (areaUpdate cn (arrays gslice))
             (concat (map (dir3ExchangesAt S gslice cn d3 ng) cs))
             (readFArea (Direction3First cn) blk)"
  using assms
proof (induction cs arbitrary: blk adj)
  case Nil
  then show ?case by simp
next
  case (Cons c cs)
  from Cons.prems obtain blk1 adj1 where
    1: "PutGeomSlice_cell S gslice cn d3 ng c (blk, adj) = Inr (blk1, adj1)"
    and 2: "forEachCell (PutGeomSlice_cell S gslice cn d3 ng) cs (blk1, adj1) = Inr (blk', adj')"
    by (auto split: sum.splits)
  show ?case using Cons.IH[OF 2] cell_effect[OF 1] by simp
qed

lemma fold_areaUpdate:
  "fold (areaUpdate cn sl) xs a f =
     (case lastExchange xs f of None \<Rightarrow> a f
      | Some s \<Rightarrow> scaleV (aFac3 cn) (readFArea (Direction3Second cn) sl s))"
proof (induction xs rule: rev_induct)
  case Nil
  then show ?case by (simp add: lastExchange_def)
next
  case (snoc x xs)
  then show ?case by (cases x) (simp add: lastExchange_def areaUpdate_def)
qed

text \<open>
  Claim C1, as the code has it.  When \<^verbatim>\<open>PutGeomSlice\<close> returns, every face of the
  direction-3 family of the receiving block that some inserted cell exchanges (the cell's
  own face and, at the end of the direction-3 line, the face beyond it; cells whose slice
  volume is zero exchange nothing) holds the slice's area vector of the face paired with
  it by the last such exchange, multiplied by the factor \<open>aFac3\<close>, and every other face
  of the family holds what it held before.  For a connection between two of the six block
  sides the factor is \<open>-1\<close>, so the area vector is negated, when both surfaces are lower
  or both are upper surfaces, and it is \<open>1\<close>, so the area vector is kept, when one is a
  lower and the other an upper surface; the two kinds of pairing exclude each other.  The
  routine exits without exchanging anything when the number of cells does not match.
\<close>

theorem PutGeomSlice_dir3_area_sign:
  "(PutGeomSlice S gslice cn d3 ng blk = Inr (blk', adj) \<longrightarrow>
      (\<forall>f. readFArea (Direction3First cn) blk' f =
         (case lastExchange (dir3Exchanges S gslice cn d3 ng) f of
            None \<Rightarrow> readFArea (Direction3First cn) blk f
          | Some s \<Rightarrow> scaleV (aFac3 cn) (readFArea (Direction3Second cn) (arrays gslice) s))))
   \<and> (BoundaryFirst cn \<in> {1..6} \<and> BoundarySecond cn \<in> {1..6} \<longrightarrow>
        (sameSidePairing cn \<longrightarrow> aFac3 cn = - 1 \<and> (\<forall>v. scaleV (aFac3 cn) v = negV v)) \<and>
        (lowerUpperPairing cn \<longrightarrow> aFac3 cn = 1 \<and> (\<forall>v. scaleV (aFac3 cn) v = v)) \<and>
        (lowerUpperPairing cn \<longleftrightarrow> \<not> sameSidePairing cn))
   \<and> (Dir1LenFirst cn * Dir2LenFirst cn * d3 \<noteq> NumCells gslice \<longrightarrow>
        PutGeomSlice S gslice cn d3 ng blk = Inl GeomSliceCellCount)"
proof -
  have run: "PutGeomSlice S gslice cn d3 ng blk = Inr (blk', adj) \<longrightarrow>
      (\<forall>f. readFArea (Direction3First cn) blk' f =
         (case lastExchange (dir3Exchanges S gslice cn d3 ng) f of
            None \<Rightarrow> readFArea (Direction3First cn) blk f
          | Some s \<Rightarrow> scaleV (aFac3 cn) (readFArea (Direction3Second cn) (arrays gslice) s)))"
  proof (intro impI allI)
    fix f
    assume "PutGeomSlice S gslice cn d3 ng blk = Inr (blk', adj)"
    then have "forEachCell (PutGeomSlice_cell S gslice cn d3 ng) (insertionCells cn d3 ng)
                 (blk, replicate 4 False) = Inr (blk', adj)"
      by (simp add: PutGeomSlice_def split: if_splits)
    from loop_effect[OF this]
    show "readFArea (Direction3First cn) blk' f =
         (case lastExchange (dir3Exchanges S gslice cn d3 ng) f of
            None \<Rightarrow> readFArea (Direction3First cn) blk f
          | Some s \<Rightarrow> scaleV (aFac3 cn) (readFArea (Direction3Second cn) (arrays gslice) s))"
      by (simp add: dir3Exchanges_def fold_areaUpdate)
  qed
  have sign: "BoundaryFirst cn \<in> {1..6} \<and> BoundarySecond cn \<in> {1..6} \<longrightarrow>
        (sameSidePairing cn \<longrightarrow> aFac3 cn = - 1 \<and> (\<forall>v. scaleV (aFac3 cn) v = negV v)) \<and>
        (lowerUpperPairing cn \<longrightarrow> aFac3 cn = 1 \<and> (\<forall>v. scaleV (aFac3 cn) v = v)) \<and>
        (lowerUpperPairing cn \<longleftrightarrow> \<not> sameSidePairing cn)"
  proof (intro impI, elim conjE)
    assume a: "BoundaryFirst cn \<in> {1..6}" "BoundarySecond cn \<in> {1..6}"
    have lu: "lowerUpperPairing cn \<longleftrightarrow> \<not> sameSidePairing cn"
      using pairing_dichotomy(1)[OF a] by blast
    have fac: "aFac3 cn = (if sameSidePairing cn then - 1 else 1)"
      using aFac3_sameSide[OF a] pairing_dichotomy(2)[OF a] by simp
    show "(sameSidePairing cn \<longrightarrow> aFac3 cn = - 1 \<and> (\<forall>v. scaleV (aFac3 cn) v = negV v)) \<and>
        (lowerUpperPairing cn \<longrightarrow> aFac3 cn = 1 \<and> (\<forall>v. scaleV (aFac3 cn) v = v)) \<and>
        (lowerUpperPairing cn \<longleftrightarrow> \<not> sameSidePairing cn)"
      using lu fac by (simp add: scaleV_m1)
  qed
  have cnt: "Dir1LenFirst cn * Dir2LenFirst cn * d3 \<noteq> NumCells gslice \<longrightarrow>
        PutGeomSlice S gslice cn d3 ng blk = Inl GeomSliceCellCount"
    by (simp add: PutGeomSlice_def)
  show ?thesis by (rule conjI[OF run conjI[OF sign cnt]])
qed

lemma ex_conn:
  "BoundaryFirst lowerUpperExample = 2" "BoundaryFirst lowerLowerExample = 1"
  "BoundarySecond lowerUpperExample = 1" "BoundarySecond lowerLowerExample = 1"
  "Orientation lowerUpperExample = 1" "Orientation lowerLowerExample = 1"
  "Direction1First lowerUpperExample = ''j''" "Direction1First lowerLowerExample = ''j''"
  "Direction2First lowerUpperExample = ''k''" "Direction2First lowerLowerExample = ''k''"
  "Direction3First lowerUpperExample = ''i''" "Direction3First lowerLowerExample = ''i''"
  "Direction3Second lowerUpperExample = ''i''" "Direction3Second lowerLowerExample = ''i''"
  "Dir1StartFirst lowerUpperExample = 0" "Dir1StartFirst lowerLowerExample = 0"
  "Dir1EndFirst lowerUpperExample = 1" "Dir1EndFirst lowerLowerExample = 1"
  "Dir2StartFirst lowerUpperExample = 0" "Dir2StartFirst lowerLowerExample = 0"
  "Dir2EndFirst lowerUpperExample = 1" "Dir2EndFirst lowerLowerExample = 1"
  "Dir1LenFirst lowerUpperExample = 1" "Dir1LenFirst lowerLowerExample = 1"
  "Dir2LenFirst lowerUpperExample = 1" "Dir2LenFirst lowerLowerExample = 1"
  "\<not> Dir1StartInterBorderFirst lowerUpperExample" "\<not> Dir1StartInterBorderFirst lowerLowerExample"
  "\<not> Dir1EndInterBorderFirst lowerUpperExample" "\<not> Dir1EndInterBorderFirst lowerLowerExample"
  "\<not> Dir2StartInterBorderFirst lowerUpperExample" "\<not> Dir2StartInterBorderFirst lowerLowerExample"
  "\<not> Dir2EndInterBorderFirst lowerUpperExample" "\<not> Dir2EndInterBorderFirst lowerLowerExample"
  by (simp_all add: lowerUpperExample_def lowerLowerExample_def)

lemma ex_cells:
  "insertionCells lowerUpperExample 2 2 = [(0, 0, 0), (0, 0, 1)]"
  "insertionCells lowerLowerExample 2 2 = [(0, 0, 0), (0, 0, 1)]"
  by (simp_all add: insertionCells_def cellRange_def ex_conn upto_rec1)

lemma ex_pairings:
  "lowerUpperPairing lowerUpperExample" "\<not> sameSidePairing lowerUpperExample"
  "sameSidePairing lowerLowerExample" "\<not> lowerUpperPairing lowerLowerExample"
  "IsLowerLowerOrUpperUpper lowerLowerExample" "\<not> IsLowerLowerOrUpperUpper lowerUpperExample"
  by (simp_all add: lowerUpperPairing_def sameSidePairing_def IsLowerLowerOrUpperUpper_def
      ex_conn lower_simps upper_simps)

lemma ex_exchanges:
  "dir3Exchanges exSwap exSlice lowerLowerExample 2 2 =
     [((0, 0, 0), (1, 0, 0)), ((1, 0, 0), (2, 0, 0)), ((2, 0, 0), (1, 0, 0))]"
  "dir3Exchanges exSwap exSlice lowerUpperExample 2 2 =
     [((0, 0, 0), (0, 0, 0)), ((1, 0, 0), (1, 0, 0)), ((2, 0, 0), (2, 0, 0))]"
  "dir3Exchanges exSwap gatedSlice lowerUpperExample 2 2 = [((0, 0, 0), (0, 0, 0))]"
  unfolding dir3Exchanges_def ex_cells
  by (simp_all add: dir3ExchangesAt_def ex_pairings Let_def exSwap_def
      exSlice_def gatedSlice_def shiftIdx_def ex_conn)

lemma ex_runs:
  "\<exists>blk' adj. PutGeomSlice exSwap exSlice lowerLowerExample 2 2 emptyGeometry = Inr (blk', adj)"
  "\<exists>blk' adj. PutGeomSlice exSwap exSlice lowerUpperExample 2 2 emptyGeometry = Inr (blk', adj)"
  "\<exists>blk' adj. PutGeomSlice exSwap gatedSlice lowerUpperExample 2 2 emptyGeometry = Inr (blk', adj)"
  unfolding PutGeomSlice_def ex_cells
  by (simp_all add: PutGeomSlice_cell_def Let_def exSwap_def
      exSlice_def gatedSlice_def knownDir_def ex_conn)

theorem PutGeomSlice_dir3_area_sign_witness:
  "dir3AreaAfter (PutGeomSlice exSwap exSlice lowerLowerExample 2 2 emptyGeometry) ''i'' (0, 0, 0)
     = Some (- 2, - 2, - 3)
   \<and> dir3AreaAfter (PutGeomSlice exSwap exSlice lowerLowerExample 2 2 emptyGeometry) ''i'' (1, 0, 0)
     = Some (- 3, - 2, - 3)
   \<and> dir3AreaAfter (PutGeomSlice exSwap exSlice lowerLowerExample 2 2 emptyGeometry) ''i'' (2, 0, 0)
     = Some (- 2, - 2, - 3)
   \<and> dir3AreaAfter (PutGeomSlice exSwap exSlice lowerUpperExample 2 2 emptyGeometry) ''i'' (0, 0, 0)
     = Some (1, 2, 3)
   \<and> dir3AreaAfter (PutGeomSlice exSwap exSlice lowerUpperExample 2 2 emptyGeometry) ''i'' (2, 0, 0)
     = Some (3, 2, 3)
   \<and> dir3AreaAfter (PutGeomSlice exSwap exSlice lowerUpperExample 2 2 emptyGeometry) ''i'' (3, 0, 0)
     = Some (0, 0, 0)
   \<and> dir3AreaAfter (PutGeomSlice exSwap gatedSlice lowerUpperExample 2 2 emptyGeometry) ''i'' (1, 0, 0)
     = Some (0, 0, 0)
   \<and> PutGeomSlice exSwap exSlice lowerUpperExample 3 2 emptyGeometry = Inl GeomSliceCellCount"
proof -
  obtain b1 a1 where r1:
    "PutGeomSlice exSwap exSlice lowerLowerExample 2 2 emptyGeometry = Inr (b1, a1)"
    using ex_runs(1) by blast
  obtain b2 a2 where r2:
    "PutGeomSlice exSwap exSlice lowerUpperExample 2 2 emptyGeometry = Inr (b2, a2)"
    using ex_runs(2) by blast
  obtain b3 a3 where r3:
    "PutGeomSlice exSwap gatedSlice lowerUpperExample 2 2 emptyGeometry = Inr (b3, a3)"
    using ex_runs(3) by blast
  note d = ex_conn(11-14)
  have f: "aFac3 lowerLowerExample = - 1" "aFac3 lowerUpperExample = 1"
    by (simp_all add: aFac3_def ex_conn smod_int_alt_def)
  have e: "readFArea ''i'' emptyGeometry c = (0, 0, 0)" for c
    by (simp add: readFArea_def emptyGeometry_def)
  have s: "readFArea ''i'' (arrays exSlice) (i, j, k) = (real_of_int i + 1, 2, 3)"
    "readFArea ''i'' (arrays gatedSlice) (i, j, k) = (real_of_int i + 1, 2, 3)" for i j k
    by (simp_all add: readFArea_def exSlice_def gatedSlice_def)
  note t1 = PutGeomSlice_dir3_area_sign[of exSwap exSlice lowerLowerExample 2 2 emptyGeometry b1 a1,
      THEN conjunct1, THEN mp, OF r1, unfolded d ex_exchanges f]
  note t2 = PutGeomSlice_dir3_area_sign[of exSwap exSlice lowerUpperExample 2 2 emptyGeometry b2 a2,
      THEN conjunct1, THEN mp, OF r2, unfolded d ex_exchanges f]
  note t3 = PutGeomSlice_dir3_area_sign[of exSwap gatedSlice lowerUpperExample 2 2 emptyGeometry b3 a3,
      THEN conjunct1, THEN mp, OF r3, unfolded d ex_exchanges f]
  note t4 = PutGeomSlice_dir3_area_sign[of exSwap exSlice lowerUpperExample 3 2 emptyGeometry b3 a3,
      THEN conjunct2, THEN conjunct2]
  have c: "Dir1LenFirst lowerUpperExample * Dir2LenFirst lowerUpperExample * 3 \<noteq> NumCells exSlice"
    by (simp add: ex_conn exSlice_def)
  show ?thesis
    using t1[rule_format, of "(0, 0, 0)"] t1[rule_format, of "(1, 0, 0)"]
      t1[rule_format, of "(2, 0, 0)"] t2[rule_format, of "(0, 0, 0)"]
      t2[rule_format, of "(2, 0, 0)"] t2[rule_format, of "(3, 0, 0)"]
      t3[rule_format, of "(1, 0, 0)"] t4[THEN mp, OF c]
    by (simp add: dir3AreaAfter_def r1 r2 r3 lastExchange_def e s scaleV_def)
qed

text \<open>
  Claim C1 as the specification words it (areas flipped for lower-upper pairings, kept
  for lower-lower ones) fails: at the pairing of an i-upper with an i-lower surface the
  stored areas, at the face of the first cell and at the face beyond the end of the line,
  are the slice's non-zero areas themselves, and at the pairing of two i-lower surfaces
  they are the negated ones.
\<close>

theorem PutGeomSlice_lower_upper_counterexample:
  "lowerUpperPairing lowerUpperExample
   \<and> dir3AreaAfter (PutGeomSlice exSwap exSlice lowerUpperExample 2 2 emptyGeometry) ''i'' (0, 0, 0)
       = Some (readFArea ''i'' (arrays exSlice) (0, 0, 0))
   \<and> dir3AreaAfter (PutGeomSlice exSwap exSlice lowerUpperExample 2 2 emptyGeometry) ''i'' (2, 0, 0)
       = Some (readFArea ''i'' (arrays exSlice) (2, 0, 0))
   \<and> readFArea ''i'' (arrays exSlice) (0, 0, 0) \<noteq> negV (readFArea ''i'' (arrays exSlice) (0, 0, 0))
   \<and> readFArea ''i'' (arrays exSlice) (2, 0, 0) \<noteq> negV (readFArea ''i'' (arrays exSlice) (2, 0, 0))
   \<and> \<not> lowerUpperPairing lowerLowerExample
   \<and> dir3AreaAfter (PutGeomSlice exSwap exSlice lowerLowerExample 2 2 emptyGeometry) ''i'' (0, 0, 0)
       = Some (negV (readFArea ''i'' (arrays exSlice) (1, 0, 0)))
   \<and> dir3AreaAfter (PutGeomSlice exSwap exSlice lowerLowerExample 2 2 emptyGeometry) ''i'' (2, 0, 0)
       = Some (negV (readFArea ''i'' (arrays exSlice) (1, 0, 0)))"
  unfolding PutGeomSlice_def ex_cells
  by (simp add: ex_pairings dir3AreaAfter_def PutGeomSlice_cell_def
      Let_def exSwap_def knownDir_def nextDir_def swapFaceDir3_def swapFaceDir12_def
      aFac3_def aFac1_def aFac2_def smod_int_alt_def
      readFArea_def writeFArea_def shiftIdx_def scaleV_def negV_def
      exSlice_def emptyGeometry_def ex_conn)

subsection \<open>Loops over cells\<close>

lemma in_cellRange:
  "(i, j, k) \<in> set (cellRange (si, sj, sk) (ei, ej, ek)) \<longleftrightarrow>
     si \<le> i \<and> i < ei \<and> sj \<le> j \<and> j < ej \<and> sk \<le> k \<and> k < ek"
  by (auto simp: cellRange_def image_iff)

lemma forEachCell_total:
  "(\<And>c s. body c s = Inr (g c s)) \<Longrightarrow> forEachCell body cs s = Inr (fold g cs s)"
  by (induction cs arbitrary: s) simp_all

lemma distinct_concat_map:
  assumes "distinct xs" "\<And>x. x \<in> set xs \<Longrightarrow> distinct (f x)"
    and "\<And>x y. x \<in> set xs \<Longrightarrow> y \<in> set xs \<Longrightarrow> x \<noteq> y \<Longrightarrow> set (f x) \<inter> set (f y) = {}"
  shows "distinct (concat (map f xs))"
  using assms
proof (induction xs)
  case Nil
  then show ?case by simp
next
  case (Cons x xs)
  have "distinct (concat (map f xs))"
    using Cons.prems by (intro Cons.IH) auto
  moreover have "set (f x) \<inter> set (f y) = {}" if "y \<in> set xs" for y
    using Cons.prems(1) Cons.prems(3)[of x y] that by auto
  ultimately show ?case using Cons.prems(2)[of x] by auto
qed

lemma distinct_cellRange: "distinct (cellRange lo hi)"
proof -
  obtain si sj sk ei ej ek where lo: "lo = (si, sj, sk)" and hi: "hi = (ei, ej, ek)"
    by (cases lo, cases hi) auto
  have slab: "distinct (concat (map (\<lambda>jj. map (\<lambda>ii. (ii, jj, kk)) [si..ei - 1]) [sj..ej - 1]))"
    for kk :: int
    by (rule distinct_concat_map) (auto simp: distinct_map inj_on_def)
  show ?thesis
    unfolding lo hi cellRange_def prod.case
    by (rule distinct_concat_map) (use slab in auto)
qed

lemma fold_all_id:
  "(\<And>f x. f \<in> set fs \<Longrightarrow> g f x = x) \<Longrightarrow> fold g fs x = x"
  by (induction fs arbitrary: x) simp_all

lemma fold_one:
  assumes "distinct fs" "a \<in> set fs" "\<And>f x. f \<in> set fs \<Longrightarrow> f \<noteq> a \<Longrightarrow> g f x = x"
  shows "fold g fs x = g a x"
  using assms
proof (induction fs arbitrary: x)
  case Nil
  then show ?case by simp
next
  case (Cons h fs)
  show ?case
  proof (cases "h = a")
    case True
    then have "a \<notin> set fs" using Cons.prems(1) by simp
    then have "fold g fs (g a x) = g a x"
      using Cons.prems(3) by (intro fold_all_id) auto
    then show ?thesis using True by simp
  next
    case False
    then have "g h x = x" using Cons.prems(3)[of h x] by simp
    moreover have "fold g fs x = g a x"
      using Cons.prems False by (intro Cons.IH) auto
    ultimately show ?thesis by simp
  qed
qed

lemma fold_two:
  assumes "distinct fs" "a \<in> set fs" "b \<in> set fs" "a \<noteq> b"
    and other: "\<And>f x. f \<in> set fs \<Longrightarrow> f \<noteq> a \<Longrightarrow> f \<noteq> b \<Longrightarrow> g f x = x"
    and comm: "\<And>x. g a (g b x) = g b (g a x)"
  shows "fold g fs x = g b (g a x)"
  using assms(1,2,3,5)
proof (induction fs arbitrary: x)
  case Nil
  then show ?case by simp
next
  case (Cons h fs)
  consider "h = a" | "h = b" | "h \<noteq> a" "h \<noteq> b" by blast
  then show ?case
  proof cases
    case 1
    then have "a \<notin> set fs" "b \<in> set fs" using Cons.prems assms(4) by auto
    then have "fold g fs (g a x) = g b (g a x)"
      using Cons.prems(1,4) by (intro fold_one) auto
    then show ?thesis using 1 by simp
  next
    case 2
    then have "b \<notin> set fs" "a \<in> set fs" using Cons.prems assms(4) by auto
    then have "fold g fs (g b x) = g a (g b x)"
      using Cons.prems(1,4) by (intro fold_one) auto
    then show ?thesis using 2 comm by simp
  next
    case 3
    then have "g h x = x" using Cons.prems(4)[of h x] by simp
    moreover have "fold g fs x = g b (g a x)"
      using Cons.prems 3 by (intro Cons.IH) auto
    ultimately show ?thesis by simp
  qed
qed

subsection \<open>Time step\<close>

lemma cell_global:
  "Dt inp > 0 \<Longrightarrow> CalcBlockTimeStep_cell inp c blk =
     Inr (blk\<lparr>dt := (dt blk)(c := Dt inp * ARef inp / LRef inp)\<rparr>)"
  by (simp add: CalcBlockTimeStep_cell_def)

lemma cell_local:
  "\<not> Dt inp > 0 \<Longrightarrow> CFL inp > 0 \<Longrightarrow>
     CalcBlockTimeStep_cell inp c blk = Inr (CalcCellDt c (CFL inp) blk)"
  by (simp add: CalcBlockTimeStep_cell_def)

lemma cell_none:
  "\<not> Dt inp > 0 \<Longrightarrow> \<not> CFL inp > 0 \<Longrightarrow>
     CalcBlockTimeStep_cell inp c blk = Inl NoTimeStep"
  by (simp add: CalcBlockTimeStep_cell_def)

lemma fold_global_dt:
  "dt (fold (\<lambda>c b. b\<lparr>dt := (dt b)(c := v)\<rparr>) cs blk) c' =
     (if c' \<in> set cs then v else dt blk c')"
  by (induction cs arbitrary: blk) auto

lemma fold_local_dt:
  "dt (fold (\<lambda>c. CalcCellDt c cfl) cs blk) c' =
     (if c' \<in> set cs then cfl * (vol blk c' / Max_us (specRadius blk c')) else dt blk c')"
proof (induction cs arbitrary: blk)
  case Nil
  then show ?case by simp
next
  case (Cons c cs)
  have "vol (CalcCellDt c cfl blk) = vol blk"
    "specRadius (CalcCellDt c cfl blk) = specRadius blk"
    "dt (CalcCellDt c cfl blk) = (dt blk)(c := cfl * (vol blk c / Max_us (specRadius blk c)))"
    by (simp_all add: CalcCellDt_def)
  then show ?case using Cons.IH[of "CalcCellDt c cfl blk"] by auto
qed

lemma no_step:
  assumes "\<not> Dt inp > 0" "\<not> CFL inp > 0" "cs \<noteq> []"
  shows "forEachCell (CalcBlockTimeStep_cell inp) cs blk = Inl NoTimeStep"
  using assms by (cases cs) (simp_all add: cell_none)

text \<open>
  Claim C5.  For every physical cell \<open>(i, j, k)\<close> of the block: when the input time step
  \<open>Dt\<close> is positive (and the reference length \<open>LRef\<close> is not zero),
  \<^verbatim>\<open>CalcBlockTimeStep\<close> returns and has set the cell's time step to
  \<open>Dt * aRef / LRef\<close>; when \<open>Dt\<close> is not positive and \<open>CFL\<close> is (and the larger of
  the cell's flow and turbulence spectral radii is not zero), the routine returns and has
  set it to \<open>CFL * V / max\<close> of the two spectral radii; when neither is positive the
  routine exits with an error.
\<close>

theorem CalcBlockTimeStep_dt:
  assumes "0 \<le> i" "i < NumI blk" "0 \<le> j" "j < NumJ blk" "0 \<le> k" "k < NumK blk"
  shows "(Dt inp > 0 \<and> LRef inp \<noteq> 0 \<longrightarrow>
            (\<exists>blk'. CalcBlockTimeStep inp blk = Inr blk' \<and>
                     dt blk' (i, j, k) = Dt inp * ARef inp / LRef inp))
       \<and> (\<not> Dt inp > 0 \<and> CFL inp > 0 \<and>
          max (flowVar (specRadius blk (i, j, k))) (turbVar (specRadius blk (i, j, k))) \<noteq> 0 \<longrightarrow>
            (\<exists>blk'. CalcBlockTimeStep inp blk = Inr blk' \<and>
                     dt blk' (i, j, k) =
                       CFL inp * vol blk (i, j, k) /
                         max (flowVar (specRadius blk (i, j, k)))
                             (turbVar (specRadius blk (i, j, k)))))
       \<and> (\<not> Dt inp > 0 \<and> \<not> CFL inp > 0 \<longrightarrow> CalcBlockTimeStep inp blk = Inl NoTimeStep)"
proof -
  let ?cs = "cellRange (0, 0, 0) (NumI blk, NumJ blk, NumK blk)"
  have mem: "(i, j, k) \<in> set ?cs" using assms by (simp add: in_cellRange)
  then have ne: "?cs \<noteq> []" by auto
  have g: "Dt inp > 0 \<Longrightarrow> CalcBlockTimeStep inp blk =
      Inr (fold (\<lambda>c b. b\<lparr>dt := (dt b)(c := Dt inp * ARef inp / LRef inp)\<rparr>) ?cs blk)"
    unfolding CalcBlockTimeStep_def by (rule forEachCell_total) (simp add: cell_global)
  have l: "\<not> Dt inp > 0 \<Longrightarrow> CFL inp > 0 \<Longrightarrow> CalcBlockTimeStep inp blk =
      Inr (fold (\<lambda>c. CalcCellDt c (CFL inp)) ?cs blk)"
    unfolding CalcBlockTimeStep_def by (rule forEachCell_total) (simp add: cell_local)
  have n: "\<not> Dt inp > 0 \<Longrightarrow> \<not> CFL inp > 0 \<Longrightarrow> CalcBlockTimeStep inp blk = Inl NoTimeStep"
    unfolding CalcBlockTimeStep_def using no_step[OF _ _ ne] by simp
  show ?thesis
    using g l n mem by (simp add: fold_global_dt fold_local_dt Max_us_def)
qed

theorem CalcBlockTimeStep_dt_witness:
  "LRef (exInput\<lparr>Dt := 1 / 10\<rparr>) \<noteq> 0
   \<and> max (flowVar (specRadius exBlock (1, 0, 0))) (turbVar (specRadius exBlock (1, 0, 0))) \<noteq> 0
   \<and> (\<exists>blk'. CalcBlockTimeStep exInput exBlock = Inr blk' \<and> dt blk' (1, 0, 0) = 3 / 2)
   \<and> (\<exists>blk'. CalcBlockTimeStep (exInput\<lparr>Dt := 1 / 10\<rparr>) exBlock = Inr blk'
          \<and> dt blk' (1, 0, 0) = 34)
   \<and> CalcBlockTimeStep (exInput\<lparr>CFL := 0\<rparr>) exBlock = Inl NoTimeStep"
proof -
  have h: "0 \<le> (1::int)" "1 < NumI exBlock" "0 \<le> (0::int)" "0 < NumJ exBlock"
    "0 < NumK exBlock"
    by (simp_all add: exBlock_def)
  from CalcBlockTimeStep_dt[OF h(1,2,3,4,3,5), of exInput]
    CalcBlockTimeStep_dt[OF h(1,2,3,4,3,5), of "exInput\<lparr>Dt := 1 / 10\<rparr>"]
    CalcBlockTimeStep_dt[OF h(1,2,3,4,3,5), of "exInput\<lparr>CFL := 0\<rparr>"]
  show ?thesis by (simp add: exInput_def exBlock_def)
qed

subsection \<open>Inviscid flux: the reconstruction checks\<close>

lemma face_ok:
  "reconstructionPhysical K inp dir blk f \<Longrightarrow>
   CalcInvFlux_face K inp dir f blk =
     Inr ((if coord dir f < coord dir (facePhysEnd dir blk) - 1
           then SubtractFromResidual f (faceFluxArea K inp dir blk f) else id)
          ((if coord dir f > coord dir (facePhysStart dir blk)
            then AddToResidual (shiftIdx dir (- 1) f) (faceFluxArea K inp dir blk f) else id) blk))"
  by (simp add: reconstructionPhysical_def CalcInvFlux_face_def MSG_ASSERT_def Let_def faceFluxArea_def)

lemma face_fail:
  "\<not> reconstructionPhysical K inp dir blk f \<Longrightarrow>
   CalcInvFlux_face K inp dir f blk = Inl NonphysicalDensity \<or>
   CalcInvFlux_face K inp dir f blk = Inl NonphysicalPressure"
  by (auto simp add: reconstructionPhysical_def CalcInvFlux_face_def MSG_ASSERT_def Let_def)

lemma residual_irrelevant [simp]:
  "reconstructionPhysical K inp dir (blk\<lparr>residual := r\<rparr>) f = reconstructionPhysical K inp dir blk f"
  "faceFluxArea K inp dir (blk\<lparr>residual := r\<rparr>) f = faceFluxArea K inp dir blk f"
  "facePhysStart dir (blk\<lparr>residual := r\<rparr>) = facePhysStart dir blk"
  "facePhysEnd dir (blk\<lparr>residual := r\<rparr>) = facePhysEnd dir blk"
  by (simp_all add: reconstructionPhysical_def faceFluxArea_def faceStateLower_def
      faceStateUpper_def facePhysStart_def facePhysEnd_def)

lemma face_ok_update:
  assumes "reconstructionPhysical K inp dir blk f"
  shows "CalcInvFlux_face K inp dir f (blk\<lparr>residual := r\<rparr>) =
           Inr (blk\<lparr>residual := faceUpdate K inp dir blk f r\<rparr>)"
proof -
  have "reconstructionPhysical K inp dir (blk\<lparr>residual := r\<rparr>) f" using assms by simp
  from face_ok[OF this] show ?thesis
    by (simp add: faceUpdate_def Let_def AddToResidual_def SubtractFromResidual_def)
qed

lemma loop_ok:
  assumes "\<forall>f \<in> set fs. reconstructionPhysical K inp dir blk f"
  shows "forEachCell (CalcInvFlux_face K inp dir) fs (blk\<lparr>residual := r\<rparr>) =
           Inr (blk\<lparr>residual := fold (faceUpdate K inp dir blk) fs r\<rparr>)"
  using assms
proof (induction fs arbitrary: r)
  case Nil
  then show ?case by simp
next
  case (Cons f fs)
  then show ?case by (simp add: face_ok_update)
qed

lemma loop_fail:
  assumes "\<exists>f \<in> set fs. \<not> reconstructionPhysical K inp dir blk f"
  shows "isFailure (forEachCell (CalcInvFlux_face K inp dir) fs (blk\<lparr>residual := r\<rparr>))"
  using assms
proof (induction fs arbitrary: r)
  case Nil
  then show ?case by simp
next
  case (Cons f fs)
  show ?case
  proof (cases "reconstructionPhysical K inp dir blk f")
    case True
    with Cons.prems have "\<exists>f \<in> set fs. \<not> reconstructionPhysical K inp dir blk f" by auto
    from Cons.IH[OF this] show ?thesis using True by (simp add: face_ok_update)
  next
    case False
    then have "\<not> reconstructionPhysical K inp dir (blk\<lparr>residual := r\<rparr>) f" by simp
    from face_fail[OF this] show ?thesis by (auto simp: isFailure_def)
  qed
qed

text \<open>
  Claim C8.  At every face, the body of the face loop of \<^verbatim>\<open>CalcInvFluxI/J/K\<close> (whatever
  the reconstruction: constant, MUSCL or WENO) ends in a failure exactly when the
  reconstructed density or pressure is not strictly positive on the lower or the upper
  side, and returns when all four are positive; the whole routine fails exactly when
  this happens at one of its faces.
\<close>

theorem CalcInvFlux_reconstruction_checked:
  "(isFailure (CalcInvFlux_face K inp dir f blk) \<longleftrightarrow> \<not> reconstructionPhysical K inp dir blk f)
   \<and> (reconstructionPhysical K inp dir blk f \<longrightarrow>
        (\<exists>blk'. CalcInvFlux_face K inp dir f blk = Inr blk'))
   \<and> (isFailure (CalcInvFlux K inp dir blk) \<longleftrightarrow>
        (\<exists>f \<in> set (faceRange dir blk). \<not> reconstructionPhysical K inp dir blk f))"
proof -
  have face: "isFailure (CalcInvFlux_face K inp dir f blk) \<longleftrightarrow>
               \<not> reconstructionPhysical K inp dir blk f"
  proof (cases "reconstructionPhysical K inp dir blk f")
    case True
    then show ?thesis by (simp add: face_ok isFailure_def)
  next
    case False
    then show ?thesis using face_fail[OF False] by (auto simp: isFailure_def)
  qed
  have ok: "reconstructionPhysical K inp dir blk f \<longrightarrow>
              (\<exists>blk'. CalcInvFlux_face K inp dir f blk = Inr blk')"
    by (simp add: face_ok)
  let ?fs = "faceRange dir blk"
  have loop: "isFailure (CalcInvFlux K inp dir blk) \<longleftrightarrow>
               (\<exists>f \<in> set ?fs. \<not> reconstructionPhysical K inp dir blk f)"
  proof (cases "\<exists>f \<in> set ?fs. \<not> reconstructionPhysical K inp dir blk f")
    case True
    from loop_fail[OF True, of "residual blk"] show ?thesis using True
      by (simp add: CalcInvFlux_def faceRange_def)
  next
    case False
    then have "\<forall>f \<in> set ?fs. reconstructionPhysical K inp dir blk f" by blast
    from loop_ok[OF this, of "residual blk"] show ?thesis using False
      by (simp add: CalcInvFlux_def faceRange_def isFailure_def)
  qed
  from face ok loop show ?thesis by blast
qed

lemma ex_physical: "reconstructionPhysical exKernels exInput dir exBlock f"
  by (simp add: reconstructionPhysical_def faceStateLower_def faceStateUpper_def exKernels_def
      exInput_def exBlock_def exPrimitive_def Rho_def SpeciesSum_def speciesPart_def primP_def
      EnergyEntry_def EnergyIndex_def)

lemma ex_vacuum:
  "\<not> reconstructionPhysical exKernels exInput dir
       (exBlock\<lparr>state := (\<lambda>c. exPrimitive\<lparr>data := [0, 0, 2, 0, 0, 5]\<rparr>)\<rparr>) f"
  by (simp add: reconstructionPhysical_def faceStateLower_def faceStateUpper_def exKernels_def
      exInput_def exBlock_def exPrimitive_def Rho_def SpeciesSum_def speciesPart_def)

theorem CalcInvFlux_reconstruction_checked_witness:
  "(\<exists>blk'. CalcInvFlux_face exKernels exInput ''i'' (1, 0, 0) exBlock = Inr blk')
   \<and> \<not> isFailure (CalcInvFlux exKernels exInput ''i'' exBlock)
   \<and> isFailure (CalcInvFlux_face exKernels exInput ''i'' (1, 0, 0)
        (exBlock\<lparr>state := (\<lambda>c. exPrimitive\<lparr>data := [0, 0, 2, 0, 0, 5]\<rparr>)\<rparr>))"
  using CalcInvFlux_reconstruction_checked[of exKernels exInput "''i''" "(1, 0, 0)" exBlock]
    CalcInvFlux_reconstruction_checked[of exKernels exInput "''i''" "(1, 0, 0)"
      "exBlock\<lparr>state := (\<lambda>c. exPrimitive\<lparr>data := [0, 0, 2, 0, 0, 5]\<rparr>)\<rparr>"]
    ex_physical ex_vacuum
  by blast

subsection \<open>Inviscid flux: the residual\<close>

lemma shift_m1_ne: "shiftIdx d (- 1) i \<noteq> i"
  by (auto simp: shiftIdx_def split: prod.splits)

lemma in_faceRange:
  "(i, j, k) \<in> set (faceRange dir blk) \<longleftrightarrow>
     0 \<le> i \<and> 0 \<le> j \<and> 0 \<le> k \<and>
     (if dir = ''i'' then i < NumI blk + 1 \<and> j < NumJ blk \<and> k < NumK blk
      else if dir = ''j'' then i < NumI blk \<and> j < NumJ blk + 1 \<and> k < NumK blk
      else i < NumI blk \<and> j < NumJ blk \<and> k < NumK blk + 1)"
  by (auto simp: faceRange_def facePhysStart_def facePhysEnd_def shiftIdx_def in_cellRange)

lemma physical_faces:
  assumes "physicalCell blk c"
  shows "c \<in> set (faceRange dir blk)" "shiftIdx dir 1 c \<in> set (faceRange dir blk)"
    "shiftIdx dir 1 c \<noteq> c" "shiftIdx dir (- 1) (shiftIdx dir 1 c) = c"
    "coord dir c < coord dir (facePhysEnd dir blk) - 1"
    "coord dir (shiftIdx dir 1 c) > coord dir (facePhysStart dir blk)"
  using assms
  by (cases c; auto simp: physicalCell_def in_faceRange shiftIdx_def coord_def facePhysStart_def
      facePhysEnd_def)+

lemma shift_inverse: "c = shiftIdx dir (- 1) f \<Longrightarrow> f = shiftIdx dir 1 c"
  by (cases f) (auto simp: shiftIdx_def)

lemma faceUpdate_pointwise:
  "faceUpdate K inp dir blk f r c = cellContribution K inp dir blk c f (r c)"
  using shift_m1_ne[of dir f]
  by (auto simp: faceUpdate_def cellContribution_def Let_def)

lemma fold_faceUpdate_pointwise:
  "fold (faceUpdate K inp dir blk) fs r c = fold (cellContribution K inp dir blk c) fs (r c)"
  by (induction fs arbitrary: r) (simp_all add: faceUpdate_pointwise)

lemma va_add_sub_commute:
  "va_add (va_sub x a) b = va_sub (va_add x b) a"
proof -
  have "map2 (+) (map2 (-) xs as) bs = map2 (-) (map2 (+) xs bs) as" for xs as bs :: "real list"
  proof (induction xs arbitrary: as bs)
    case Nil
    then show ?case by simp
  next
    case (Cons x xs)
    then show ?case by (cases as; cases bs) simp_all
  qed
  then show ?thesis by (simp add: va_add_def va_sub_def)
qed

lemma nonphysical_untouched:
  assumes "\<not> physicalCell blk c" "f \<in> set (faceRange dir blk)"
  shows "cellContribution K inp dir blk c f x = x"
proof -
  obtain i j k where f: "f = (i, j, k)" by (cases f)
  have 1: "\<not> (c = shiftIdx dir (- 1) f \<and> coord dir f > coord dir (facePhysStart dir blk))"
    using assms unfolding f
    by (auto simp: physicalCell_def in_faceRange shiftIdx_def coord_def facePhysStart_def
        split: if_splits)
  have 2: "\<not> (c = f \<and> coord dir f < coord dir (facePhysEnd dir blk) - 1)"
    using assms unfolding f
    by (auto simp: physicalCell_def in_faceRange shiftIdx_def coord_def facePhysEnd_def
        split: if_splits)
  show ?thesis using 1 2 unfolding cellContribution_def by auto
qed

lemma face_sides:
  assumes "f \<in> set (faceRange dir blk)"
  shows "coord dir f > coord dir (facePhysStart dir blk) \<longleftrightarrow>
           physicalCell blk (shiftIdx dir (- 1) f)"
    and "coord dir f < coord dir (facePhysEnd dir blk) - 1 \<longleftrightarrow> physicalCell blk f"
proof -
  obtain i j k where f: "f = (i, j, k)" by (cases f)
  note r = assms[unfolded f in_faceRange]
  have d: "dir = ''i'' \<or> (dir \<noteq> ''i'' \<and> dir = ''j'') \<or> (dir \<noteq> ''i'' \<and> dir \<noteq> ''j'')"
    by blast
  from d show "coord dir f > coord dir (facePhysStart dir blk) \<longleftrightarrow>
           physicalCell blk (shiftIdx dir (- 1) f)"
    using r
    by (elim disjE conjE)
       (auto simp add: f physicalCell_def shiftIdx_def coord_def facePhysStart_def)
  from d show "coord dir f < coord dir (facePhysEnd dir blk) - 1 \<longleftrightarrow> physicalCell blk f"
    using r
    by (elim disjE conjE)
       (auto simp add: f physicalCell_def shiftIdx_def coord_def facePhysEnd_def)
qed

text \<open>
  The body of the face loop at one face \<open>f\<close> of the family \<open>dir\<close> whose reconstructed
  states pass the checks: the flux times the face-area magnitude is added to the residual
  of the lower-index cell and subtracted from the residual of the upper-index cell, each
  only if that cell is a physical cell.
\<close>

lemma face_residual:
  assumes "f \<in> set (faceRange dir blk)" and "reconstructionPhysical K inp dir blk f"
  shows "\<exists>blk'. CalcInvFlux_face K inp dir f blk = Inr blk' \<and>
     (\<forall>c. residual blk' c =
        (if c = shiftIdx dir (- 1) f \<and> physicalCell blk c
         then va_add (residual blk c) (faceFluxArea K inp dir blk f)
         else if c = f \<and> physicalCell blk c
         then va_sub (residual blk c) (faceFluxArea K inp dir blk f)
         else residual blk c))"
  using shift_m1_ne[of dir f] face_sides[OF assms(1)]
  by (auto simp: face_ok[OF assms(2)] AddToResidual_def SubtractFromResidual_def)

text \<open>
  The whole loop over the faces of one family: the residual of each physical cell \<open>c\<close>
  has lost the flux through its lower face and gained the flux through its upper face,
  and the residual of every ghost cell is unchanged.
\<close>

lemma CalcInvFlux_residual:
  assumes "\<forall>f \<in> set (faceRange dir blk). reconstructionPhysical K inp dir blk f"
  shows "\<exists>blk'. CalcInvFlux K inp dir blk = Inr blk' \<and>
           (\<forall>c. residual blk' c =
              (if physicalCell blk c
               then va_add (va_sub (residual blk c) (faceFluxArea K inp dir blk c))
                           (faceFluxArea K inp dir blk (shiftIdx dir 1 c))
               else residual blk c))"
proof -
  let ?fs = "faceRange dir blk"
  let ?g = "cellContribution K inp dir blk"
  have run: "CalcInvFlux K inp dir blk =
      Inr (blk\<lparr>residual := fold (faceUpdate K inp dir blk) ?fs (residual blk)\<rparr>)"
    using loop_ok[of ?fs K inp dir blk "residual blk"] assms
    by (simp add: CalcInvFlux_def faceRange_def)
  have val: "fold (faceUpdate K inp dir blk) ?fs (residual blk) c =
              (if physicalCell blk c
               then va_add (va_sub (residual blk c) (faceFluxArea K inp dir blk c))
                           (faceFluxArea K inp dir blk (shiftIdx dir 1 c))
               else residual blk c)" for c
  proof (cases "physicalCell blk c")
    case False
    have "fold (?g c) ?fs (residual blk c) = residual blk c"
      by (rule fold_all_id) (rule nonphysical_untouched[OF False])
    then show ?thesis using False by (simp add: fold_faceUpdate_pointwise)
  next
    case True
    note pf = physical_faces[OF True, of dir]
    let ?b = "shiftIdx dir 1 c"
    have ga: "?g c c x = va_sub x (faceFluxArea K inp dir blk c)" for x
      using pf(5) shift_m1_ne[of dir c] by (auto simp: cellContribution_def)
    have gb: "?g c ?b x = va_add x (faceFluxArea K inp dir blk ?b)" for x
      using pf(4,6) by (simp add: cellContribution_def)
    have other: "?g c f x = x" if "f \<noteq> c" "f \<noteq> ?b" for f x
      using that shift_inverse[of c dir f] by (auto simp: cellContribution_def)
    have "fold (?g c) ?fs (residual blk c) = ?g c ?b (?g c c (residual blk c))"
    proof (rule fold_two)
      show "distinct ?fs" by (simp add: faceRange_def distinct_cellRange)
      show "c \<in> set ?fs" "?b \<in> set ?fs" using pf(1,2) by simp_all
      show "c \<noteq> ?b" using pf(3) by simp
      show "\<And>f x. f \<in> set ?fs \<Longrightarrow> f \<noteq> c \<Longrightarrow> f \<noteq> ?b \<Longrightarrow> ?g c f x = x"
        using other by simp
      show "\<And>x. ?g c c (?g c ?b x) = ?g c ?b (?g c c x)"
        by (simp add: ga gb va_add_sub_commute)
    qed
    then show ?thesis using True by (simp add: fold_faceUpdate_pointwise ga gb)
  qed
  show ?thesis using run val by simp
qed

lemma recon_static [simp]:
  "reconstructionPhysical K inp dir (blk\<lparr>fAreaMag := m\<rparr>) f = reconstructionPhysical K inp dir blk f"
  by (simp add: reconstructionPhysical_def faceStateLower_def faceStateUpper_def)

text \<open>
  Claim C3.  When the reconstructed states pass the checks at every face of the family,
  each of \<^verbatim>\<open>CalcInvFluxI\<close>, \<^verbatim>\<open>CalcInvFluxJ\<close>, \<^verbatim>\<open>CalcInvFluxK\<close> returns, and on
  return the residual of every physical cell \<open>c\<close> is its residual before the call minus
  the flux times area \<open>F A\<close> of the face with the index of \<open>c\<close> (of which \<open>c\<close> is the
  right, upper-index cell) plus \<open>F A\<close> of the next face along the direction (of which
  \<open>c\<close> is the left, lower-index cell).  So every physical face has added \<open>F A\<close> to its
  left cell and subtracted it from its right cell, and the residual of every ghost cell
  is as it was: a face on the boundary of the block has updated its physical side only.
\<close>

theorem CalcInvFluxIJK_residual:
  "((\<forall>f \<in> set (faceRange ''i'' blk). reconstructionPhysical K inp ''i'' blk f) \<longrightarrow>
      (\<exists>blk'. CalcInvFluxI K inp blk = Inr blk' \<and>
         (\<forall>c. residual blk' c =
            (if physicalCell blk c
             then va_add (va_sub (residual blk c) (faceFluxArea K inp ''i'' blk c))
                         (faceFluxArea K inp ''i'' blk (shiftIdx ''i'' 1 c))
             else residual blk c))))
   \<and> ((\<forall>f \<in> set (faceRange ''j'' blk). reconstructionPhysical K inp ''j'' blk f) \<longrightarrow>
      (\<exists>blk'. CalcInvFluxJ K inp blk = Inr blk' \<and>
         (\<forall>c. residual blk' c =
            (if physicalCell blk c
             then va_add (va_sub (residual blk c) (faceFluxArea K inp ''j'' blk c))
                         (faceFluxArea K inp ''j'' blk (shiftIdx ''j'' 1 c))
             else residual blk c))))
   \<and> ((\<forall>f \<in> set (faceRange ''k'' blk). reconstructionPhysical K inp ''k'' blk f) \<longrightarrow>
      (\<exists>blk'. CalcInvFluxK K inp blk = Inr blk' \<and>
         (\<forall>c. residual blk' c =
            (if physicalCell blk c
             then va_add (va_sub (residual blk c) (faceFluxArea K inp ''k'' blk c))
                         (faceFluxArea K inp ''k'' blk (shiftIdx ''k'' 1 c))
             else residual blk c))))"
  unfolding CalcInvFluxI_def CalcInvFluxJ_def CalcInvFluxK_def
  using CalcInvFlux_residual[of "''i''" blk K inp] CalcInvFlux_residual[of "''j''" blk K inp]
    CalcInvFlux_residual[of "''k''" blk K inp]
  by blast

lemma ex_flux_area:
  "faceFluxArea exKernels exInput ''i'' exFluxBlock f =
     \<lparr>data = (if f = (1, 0, 0) then [9, 3, 6, 0, 0, 15] else [6, 2, 4, 0, 0, 10]), numSpecies = 2\<rparr>"
  by (simp add: faceFluxArea_def faceStateLower_def faceStateUpper_def exKernels_def exInput_def
      exFluxBlock_def exBlock_def exPrimitive_def va_scale_def)

theorem CalcInvFluxIJK_residual_witness:
  "\<exists>blk'. CalcInvFluxI exKernels exInput exFluxBlock = Inr blk' \<and>
      residual blk' (0, 0, 0) = \<lparr>data = [- 2, 3 / 2, 2, 0, 0, 5], numSpecies = 2\<rparr> \<and>
      residual blk' (1, 0, 0) = \<lparr>data = [- 8, - 1 / 2, - 2, 0, 0, - 5], numSpecies = 2\<rparr> \<and>
      residual blk' (- 1, 0, 0) = exResidual \<and>
      residual blk' (2, 0, 0) = exResidual"
proof -
  have ph: "\<forall>f \<in> set (faceRange ''i'' exFluxBlock).
      reconstructionPhysical exKernels exInput ''i'' exFluxBlock f"
    by (simp add: exFluxBlock_def ex_physical)
  have p: "physicalCell exFluxBlock (0, 0, 0)" "physicalCell exFluxBlock (1, 0, 0)"
    "\<not> physicalCell exFluxBlock (- 1, 0, 0)" "\<not> physicalCell exFluxBlock (2, 0, 0)"
    by (simp_all add: physicalCell_def exFluxBlock_def exBlock_def)
  have r: "residual exFluxBlock c = exResidual" for c by (simp add: exFluxBlock_def exBlock_def)
  from CalcInvFluxIJK_residual[of exFluxBlock exKernels exInput, THEN conjunct1, THEN mp, OF ph]
  obtain blk' where run: "CalcInvFluxI exKernels exInput exFluxBlock = Inr blk'"
    and res: "\<And>c. residual blk' c =
            (if physicalCell exFluxBlock c
             then va_add (va_sub (residual exFluxBlock c)
                            (faceFluxArea exKernels exInput ''i'' exFluxBlock c))
                         (faceFluxArea exKernels exInput ''i'' exFluxBlock (shiftIdx ''i'' 1 c))
             else residual exFluxBlock c)"
    by blast
  show ?thesis
    using run res[of "(0, 0, 0)"] res[of "(1, 0, 0)"] res[of "(- 1, 0, 0)"] res[of "(2, 0, 0)"] p
    by (simp add: r ex_flux_area shiftIdx_def exResidual_def va_add_def va_sub_def)
qed

subsection \<open>The implicit update of a cell\<close>

lemma sum_list_div: "sum_list (map (\<lambda>r. r / (c::real)) xs) = sum_list xs / c"
  by (induction xs) (simp_all add: add_divide_distrib)

lemma sum_list_scale: "sum_list (map (\<lambda>m. (c::real) * m) xs) = c * sum_list xs"
  by (induction xs) (simp_all add: algebra_simps)

lemma sum_list_clamp_ge: "sum_list (map (\<lambda>x. max x (0::real)) xs) \<ge> sum_list xs"
  by (induction xs) (auto simp: max_def)

lemma sum_list_clamp_nonneg: "sum_list (map (\<lambda>x. max x (0::real)) xs) \<ge> 0"
  by (induction xs) (auto simp: max_def)

lemma total_ge_one:
  assumes "Rho cu \<noteq> 0"
  shows "sum_list (clampedFractions cu) \<ge> 1"
proof -
  have "sum_list (MassFractions cu) = 1"
    using assms by (simp add: MassFractions_def sum_list_div Rho_def SpeciesSum_def)
  moreover have "sum_list (clampedFractions cu) \<ge> sum_list (MassFractions cu)"
    unfolding clampedFractions_def by (rule sum_list_clamp_ge)
  ultimately show ?thesis by simp
qed

lemma length_renorm: "length (renormalizedSpecies cu) = length (speciesPart cu)"
  by (simp add: renormalizedSpecies_def clampedFractions_def MassFractions_def)

lemma sum_renorm:
  assumes "Rho cu \<noteq> 0"
  shows "sum_list (renormalizedSpecies cu) = Rho cu"
proof -
  have "sum_list (clampedFractions cu) \<noteq> 0" using total_ge_one[OF assms] by simp
  then show ?thesis
    unfolding renormalizedSpecies_def sum_list_scale sum_list_div by simp
qed

lemma UpdatePrimWithCons_data:
  "data (UpdatePrimWithCons st phys du) =
     (let cu = va_add (ConsVars st phys) du;
          cu' = cu\<lparr>data := renormalizedSpecies cu @ drop (numSpecies cu) (data cu)\<rparr>
      in data (primitiveFromCons cu' phys))"
  unfolding UpdatePrimWithCons_def Let_def renormalizedSpecies_def clampedFractions_def ..

lemma numSpecies_update [simp]:
  "numSpecies (UpdatePrimWithCons st phys du) = numSpecies st"
  by (simp add: UpdatePrimWithCons_def Let_def primitiveFromCons_def va_add_def ConsVars_def PrimToCons_def)

lemma cu_facts:
  assumes "length (data st) = numSpecies st + 4 + nt" "length (data du) = numSpecies st + 4 + nt"
  shows "numSpecies (va_add (ConsVars st phys) du) = numSpecies st"
    and "length (data (va_add (ConsVars st phys) du)) = numSpecies st + 4 + nt"
    and "length (speciesPart (va_add (ConsVars st phys) du)) = numSpecies st"
  using assms
  by (simp_all add: va_add_def ConsVars_def PrimToCons_def Let_def speciesPart_def turbulencePart_def TurbulenceIndex_def)

lemma species_of_update:
  assumes "length (data st) = numSpecies st + 4 + nt" "length (data du) = numSpecies st + 4 + nt"
  shows "speciesPart (UpdatePrimWithCons st phys du) = renormalizedSpecies (va_add (ConsVars st phys) du)"
proof -
  let ?cu = "va_add (ConsVars st phys) du"
  have len: "length (renormalizedSpecies ?cu) = numSpecies st"
    using cu_facts(3)[OF assms] by (simp add: length_renorm)
  have ns: "numSpecies ?cu = numSpecies st" using cu_facts(1)[OF assms] .
  show ?thesis
    using len ns
    by (simp add: speciesPart_def UpdatePrimWithCons_data Let_def primitiveFromCons_def)
qed


lemma clamped_nth:
  assumes "i < length (speciesPart cu)"
  shows "clampedFractions cu ! i = max (speciesPart cu ! i / Rho cu) 0"
  using assms by (simp add: clampedFractions_def MassFractions_def)

lemma clamped_as_range:
  assumes "length (speciesPart cu) = ns" "numSpecies cu = ns"
  shows "clampedFractions cu = map (\<lambda>j. max (SpeciesN cu j / Rho cu) 0) [0..<ns]"
proof (rule nth_equalityI)
  show "length (clampedFractions cu) = length (map (\<lambda>j. max (SpeciesN cu j / Rho cu) 0) [0..<ns])"
    using assms by (simp add: clampedFractions_def MassFractions_def)
next
  fix i assume "i < length (clampedFractions cu)"
  then have i: "i < ns" using assms by (simp add: clampedFractions_def MassFractions_def)
  then show "clampedFractions cu ! i = map (\<lambda>j. max (SpeciesN cu j / Rho cu) 0) [0..<ns] ! i"
    using assms clamped_nth[of i cu] by (simp add: SpeciesN_def speciesPart_def)
qed

lemma renorm_nth:
  assumes "i < length (speciesPart cu)"
  shows "renormalizedSpecies cu ! i =
           Rho cu * (clampedFractions cu ! i / sum_list (clampedFractions cu))"
  using assms by (simp add: renormalizedSpecies_def clampedFractions_def MassFractions_def)

lemma velocity_of_update:
  assumes "length (data st) = numSpecies st + 4 + nt" "length (data du) = numSpecies st + 4 + nt"
    and "Rho (va_add (ConsVars st phys) du) \<noteq> 0"
  shows "primU (UpdatePrimWithCons st phys du) =
           MomentumX (va_add (ConsVars st phys) du) / Rho (va_add (ConsVars st phys) du)"
    and "primV (UpdatePrimWithCons st phys du) =
           MomentumY (va_add (ConsVars st phys) du) / Rho (va_add (ConsVars st phys) du)"
    and "primW (UpdatePrimWithCons st phys du) =
           MomentumZ (va_add (ConsVars st phys) du) / Rho (va_add (ConsVars st phys) du)"
proof -
  let ?cu = "va_add (ConsVars st phys) du"
  let ?cu' = "?cu\<lparr>data := renormalizedSpecies ?cu @ drop (numSpecies ?cu) (data ?cu)\<rparr>"
  have len: "length (renormalizedSpecies ?cu) = numSpecies st"
    using cu_facts(3)[OF assms(1,2)] by (simp add: length_renorm)
  have ns: "numSpecies ?cu = numSpecies st" using cu_facts(1)[OF assms(1,2)] .
  have lcu: "length (data ?cu) = numSpecies st + 4 + nt" using cu_facts(2)[OF assms(1,2)] .
  have sp: "speciesPart ?cu' = renormalizedSpecies ?cu"
    using len ns by (simp add: speciesPart_def)
  have rho': "SpeciesSum ?cu' = Rho ?cu"
    using sum_renorm[OF assms(3)] sp by (simp add: SpeciesSum_def)
  have mx: "MomentumX ?cu' = MomentumX ?cu" "MomentumY ?cu' = MomentumY ?cu"
      "MomentumZ ?cu' = MomentumZ ?cu"
    using len ns lcu
    by (simp_all add: MomentumX_def MomentumXIndex_def MomentumY_def MomentumYIndex_def
        MomentumZ_def MomentumZIndex_def nth_append)
  have d: "data (UpdatePrimWithCons st phys du) = data (primitiveFromCons ?cu' phys)"
    by (simp add: UpdatePrimWithCons_data Let_def)
  have n: "numSpecies (primitiveFromCons ?cu' phys) = numSpecies st"
    using ns by (simp add: primitiveFromCons_def Let_def)
  show "primU (UpdatePrimWithCons st phys du) = MomentumX ?cu / Rho ?cu"
    using len sp rho' mx n
    by (simp add: primU_def MomentumX_def MomentumXIndex_def d)
       (simp add: primitiveFromCons_def Let_def nth_append MomentumX_def MomentumXIndex_def)
  show "primV (UpdatePrimWithCons st phys du) = MomentumY ?cu / Rho ?cu"
    using len sp rho' mx n
    by (simp add: primV_def MomentumY_def MomentumYIndex_def d)
       (simp add: primitiveFromCons_def Let_def nth_append MomentumY_def MomentumYIndex_def)
  show "primW (UpdatePrimWithCons st phys du) = MomentumZ ?cu / Rho ?cu"
    using len sp rho' mx n
    by (simp add: primW_def MomentumZ_def MomentumZIndex_def d)
       (simp add: primitiveFromCons_def Let_def nth_append MomentumZ_def MomentumZIndex_def)
qed

text \<open>
  Claim C4.  Let \<open>cu\<close> be the conserved record of the cell advanced by \<open>du\<close>, with a
  non-zero mixture density, and \<open>new\<close> the primitive that \<^verbatim>\<open>UpdatePrimWithCons\<close>
  builds.  Every entry of \<open>cu\<close> is the conserved entry plus the entry of \<open>du\<close>; the
  density of \<open>new\<close> is the mixture density of \<open>cu\<close>; each mass fraction of \<open>new\<close> is the
  mass fraction of \<open>cu\<close> clamped at zero and divided by the sum of the clamped fractions,
  so it is non-negative and the mass fractions of \<open>new\<close> sum to one; the velocity of
  \<open>new\<close> is the momentum of \<open>cu\<close> over that density; and whenever
  \<^verbatim>\<open>ImplicitTimeAdvance\<close> returns, the state it has stored in the cell is \<open>new\<close>.
\<close>

theorem UpdatePrimWithCons_mass_fractions:
  assumes len_st: "length (data st) = numSpecies st + 4 + nt"
    and len_du: "length (data du) = numSpecies st + 4 + nt"
    and rho: "Rho (va_add (ConsVars st phys) du) \<noteq> 0"
  shows "let cu = va_add (ConsVars st phys) du; new = UpdatePrimWithCons st phys du;
             ns = numSpecies st
         in (\<forall>n < ns + 4 + nt. data cu ! n = data (ConsVars st phys) ! n + data du ! n)
          \<and> Rho new = Rho cu
          \<and> (\<forall>i < ns. MassFractionN new i =
                 max (SpeciesN cu i / Rho cu) 0 /
                 sum_list (map (\<lambda>j. max (SpeciesN cu j / Rho cu) 0) [0..<ns]))
          \<and> (\<forall>i < ns. 0 \<le> MassFractionN new i)
          \<and> sum_list (map (MassFractionN new) [0..<ns]) = 1
          \<and> primU new = MomentumX cu / Rho cu
          \<and> primV new = MomentumY cu / Rho cu
          \<and> primW new = MomentumZ cu / Rho cu
          \<and> (\<forall>c blk blk'. state blk c = st \<longrightarrow> ImplicitTimeAdvance du phys c blk = Inr blk'
                \<longrightarrow> state blk' c = new)"
proof -
  let ?cu = "va_add (ConsVars st phys) du"
  let ?new = "UpdatePrimWithCons st phys du"
  let ?ns = "numSpecies st"
  let ?total = "sum_list (clampedFractions ?cu)"
  have ns: "numSpecies ?cu = ?ns" and lsp: "length (speciesPart ?cu) = ?ns"
    using cu_facts[OF len_st len_du] by simp_all
  have lcons: "length (data (ConsVars st phys)) = ?ns + 4 + nt"
    using len_st
    by (simp add: ConsVars_def PrimToCons_def Let_def speciesPart_def turbulencePart_def
        TurbulenceIndex_def)
  have add: "\<forall>n < ?ns + 4 + nt. data ?cu ! n = data (ConsVars st phys) ! n + data du ! n"
    using lcons len_du by (simp add: va_add_def)
  have sp: "speciesPart ?new = renormalizedSpecies ?cu"
    by (rule species_of_update[OF len_st len_du])
  have rho_new: "Rho ?new = Rho ?cu"
    using sum_renorm[OF rho] sp by (simp add: Rho_def SpeciesSum_def)
  have tot: "?total \<ge> 1" by (rule total_ge_one[OF rho])
  have rng: "clampedFractions ?cu = map (\<lambda>j. max (SpeciesN ?cu j / Rho ?cu) 0) [0..<?ns]"
    by (rule clamped_as_range[OF lsp ns])
  have lnew: "length (speciesPart ?new) = ?ns"
    using sp lsp by (simp add: length_renorm)
  have mf: "MassFractionN ?new i = clampedFractions ?cu ! i / ?total" if "i < ?ns" for i
  proof -
    have "RhoN ?new i = speciesPart ?new ! i"
      using that by (simp add: RhoN_def SpeciesN_def speciesPart_def)
    also have "\<dots> = Rho ?cu * (clampedFractions ?cu ! i / ?total)"
      using that lsp by (simp add: sp renorm_nth)
    finally show ?thesis using rho by (simp add: MassFractionN_def rho_new)
  qed
  have mf_formula: "\<forall>i < ?ns. MassFractionN ?new i =
        max (SpeciesN ?cu i / Rho ?cu) 0 /
        sum_list (map (\<lambda>j. max (SpeciesN ?cu j / Rho ?cu) 0) [0..<?ns])"
  proof (intro allI impI)
    fix i assume i: "i < ?ns"
    have "clampedFractions ?cu ! i = max (SpeciesN ?cu i / Rho ?cu) 0"
      using i lsp ns clamped_nth[of i ?cu] by (simp add: SpeciesN_def speciesPart_def)
    then show "MassFractionN ?new i =
        max (SpeciesN ?cu i / Rho ?cu) 0 /
        sum_list (map (\<lambda>j. max (SpeciesN ?cu j / Rho ?cu) 0) [0..<?ns])"
      using mf[OF i] rng by simp
  qed
  have nonneg: "\<forall>i < ?ns. 0 \<le> MassFractionN ?new i"
  proof (intro allI impI)
    fix i assume i: "i < ?ns"
    have "0 \<le> clampedFractions ?cu ! i"
      using i lsp by (simp add: clamped_nth)
    then show "0 \<le> MassFractionN ?new i" using mf[OF i] tot by simp
  qed
  have "map (MassFractionN ?new) [0..<?ns] = map (\<lambda>x. x / ?total) (clampedFractions ?cu)"
  proof (rule nth_equalityI)
    show "length (map (MassFractionN ?new) [0..<?ns]) =
          length (map (\<lambda>x. x / ?total) (clampedFractions ?cu))"
      using lsp by (simp add: clampedFractions_def MassFractions_def)
  next
    fix i assume "i < length (map (MassFractionN ?new) [0..<?ns])"
    then have i: "i < ?ns" by simp
    then have "i < length (clampedFractions ?cu)"
      using lsp by (simp add: clampedFractions_def MassFractions_def)
    then show "map (MassFractionN ?new) [0..<?ns] ! i =
               map (\<lambda>x. x / ?total) (clampedFractions ?cu) ! i"
      using i mf[OF i] by simp
  qed
  then have one: "sum_list (map (MassFractionN ?new) [0..<?ns]) = 1"
    using tot by (simp add: sum_list_div)
  have impl: "\<forall>c blk blk'. state blk c = st \<longrightarrow> ImplicitTimeAdvance du phys c blk = Inr blk'
                \<longrightarrow> state blk' c = ?new"
    by (auto simp: ImplicitTimeAdvance_def checkedState_def MSG_ASSERT_def insertState_def
        UpdateWithConsVars_def split: if_splits)
  show ?thesis
    unfolding Let_def
    using add rho_new mf_formula nonneg one velocity_of_update[OF len_st len_du rho] impl
    by blast
qed


lemma ex_cu: "data (va_add (ConsVars exPrimitive exPhysics) exUpdate) = [- 1, 2, 8, 0, 0, 28]"
  by (simp add: va_add_def ConsVars_def PrimToCons_def Let_def exPrimitive_def exPhysics_def
      exUpdate_def speciesPart_def turbulencePart_def TurbulenceIndex_def Rho_def SpeciesSum_def
      primU_def primV_def primW_def MomentumX_def MomentumY_def MomentumZ_def
      MomentumXIndex_def MomentumYIndex_def MomentumZIndex_def)

lemma ex_cu_ns: "numSpecies (va_add (ConsVars exPrimitive exPhysics) exUpdate) = 2"
  by (simp add: va_add_def ConsVars_def PrimToCons_def Let_def exPrimitive_def)

lemma ex_cu_rho: "Rho (va_add (ConsVars exPrimitive exPhysics) exUpdate) = 1"
  by (simp add: Rho_def SpeciesSum_def speciesPart_def ex_cu ex_cu_ns)

lemma ex_new_data:
  "data (UpdatePrimWithCons exPrimitive exPhysics exUpdate) = [0, 1, 8, 0, 0, 1]"
proof -
  let ?cu = "va_add (ConsVars exPrimitive exPhysics) exUpdate"
  have r: "Rho ?cu = 1" by (rule ex_cu_rho)
  have sp: "speciesPart ?cu = [- 1, 2]" by (simp add: speciesPart_def ex_cu ex_cu_ns)
  have cl: "clampedFractions ?cu = [0, 2]"
    by (simp add: clampedFractions_def MassFractions_def sp r)
  have rn: "renormalizedSpecies ?cu = [0, 1]"
    by (simp add: renormalizedSpecies_def cl r)
  show ?thesis
    unfolding UpdatePrimWithCons_data Let_def rn ex_cu ex_cu_ns
    by (simp add: primitiveFromCons_def Let_def speciesPart_def SpeciesSum_def MomentumX_def
        MomentumY_def MomentumZ_def EnergyEntry_def MomentumXIndex_def MomentumYIndex_def
        MomentumZIndex_def EnergyIndex_def turbulencePart_def TurbulenceIndex_def
        exPhysics_def va_add_def ConsVars_def PrimToCons_def exPrimitive_def)
qed

lemma ex_implicit:
  "ImplicitTimeAdvance exUpdate exPhysics (0, 0, 0) exBlock =
     Inr (exBlock\<lparr>state := (state exBlock)((0, 0, 0) :=
            UpdatePrimWithCons exPrimitive exPhysics exUpdate)\<rparr>)"
proof -
  have s: "state exBlock (0, 0, 0) = exPrimitive" by (simp add: exBlock_def)
  have n: "numSpecies exPrimitive = 2"
    by (simp add: exPrimitive_def)
  have "Rho (UpdatePrimWithCons exPrimitive exPhysics exUpdate) = 1"
    by (simp add: Rho_def SpeciesSum_def speciesPart_def ex_new_data n)
  moreover have "primP (UpdatePrimWithCons exPrimitive exPhysics exUpdate) = 1"
    by (simp add: primP_def EnergyEntry_def EnergyIndex_def ex_new_data n)
  ultimately show ?thesis
    by (simp add: ImplicitTimeAdvance_def checkedState_def MSG_ASSERT_def insertState_def
        UpdateWithConsVars_def s)
qed

theorem UpdatePrimWithCons_mass_fractions_witness:
  "Rho (va_add (ConsVars exPrimitive exPhysics) exUpdate) \<noteq> 0
   \<and> Rho (UpdatePrimWithCons exPrimitive exPhysics exUpdate) = 1
   \<and> MassFractionN (UpdatePrimWithCons exPrimitive exPhysics exUpdate) 0 = 0
   \<and> MassFractionN (UpdatePrimWithCons exPrimitive exPhysics exUpdate) 1 = 1
   \<and> primU (UpdatePrimWithCons exPrimitive exPhysics exUpdate) = 8
   \<and> ImplicitTimeAdvance exUpdate exPhysics (0, 0, 0) exBlock =
       Inr (exBlock\<lparr>state := (state exBlock)((0, 0, 0) :=
              UpdatePrimWithCons exPrimitive exPhysics exUpdate)\<rparr>)"
proof -
  have h1: "length (data exPrimitive) = numSpecies exPrimitive + 4 + 0"
    and h2: "length (data exUpdate) = numSpecies exPrimitive + 4 + 0"
    by (simp_all add: exPrimitive_def exUpdate_def)
  have h3: "Rho (va_add (ConsVars exPrimitive exPhysics) exUpdate) \<noteq> 0"
    by (simp add: ex_cu_rho)
  have ns: "numSpecies exPrimitive = 2" by (simp add: exPrimitive_def)
  have up: "[0..<2] = [0, Suc 0]" by (simp add: upt_rec)
  note t = UpdatePrimWithCons_mass_fractions[OF h1 h2 h3, unfolded Let_def ns]
  from t have mf: "\<forall>i<2. MassFractionN (UpdatePrimWithCons exPrimitive exPhysics exUpdate) i =
      max (SpeciesN (va_add (ConsVars exPrimitive exPhysics) exUpdate) i /
           Rho (va_add (ConsVars exPrimitive exPhysics) exUpdate)) 0 /
      sum_list (map (\<lambda>j. max (SpeciesN (va_add (ConsVars exPrimitive exPhysics) exUpdate) j /
           Rho (va_add (ConsVars exPrimitive exPhysics) exUpdate)) 0) [0..<2])"
    by blast
  from t have r: "Rho (UpdatePrimWithCons exPrimitive exPhysics exUpdate) =
      Rho (va_add (ConsVars exPrimitive exPhysics) exUpdate)"
    and u: "primU (UpdatePrimWithCons exPrimitive exPhysics exUpdate) =
      MomentumX (va_add (ConsVars exPrimitive exPhysics) exUpdate) /
      Rho (va_add (ConsVars exPrimitive exPhysics) exUpdate)"
    by blast+
  show ?thesis
    using mf[rule_format, of 0] mf[rule_format, of 1] r u h3 ex_implicit
    by (simp add: ex_cu_rho SpeciesN_def ex_cu MomentumX_def MomentumXIndex_def ex_cu_ns up)
qed

subsection \<open>Residual norms in \<^verbatim>\<open>UpdateBlock\<close>\<close>

lemma upt_6: "[0..<6] = [0, 1, 2, 3, 4, 5]"
  by (simp add: upt_rec)

text \<open>
  Claim C2 at a concrete cell.  The cell's residual is \<open>[-5, 1/2, 0, 0, 0, 0]\<close> and the
  current L-infinity record holds the value 1.  The L2 accumulator gains the squares
  \<open>[25, 1/4, 0, 0, 0, 0]\<close>, but the L-infinity record is left as it was although the
  first component has absolute value 5: the comparison in the loop is made on the signed
  residual.
\<close>

theorem accumulateNorms_negative_residual:
  "Residual exBlock (0, 0, 0) 0 = - 5
   \<and> \<bar>Residual exBlock (0, 0, 0) 0\<bar> > Linf exLinf
   \<and> accumulateNorms exInput exBlock (0, 0, 0) (exL2, exLinf)
       = (\<lparr>data = [25, 1 / 4, 0, 0, 0, 0], numSpecies = 2\<rparr>, exLinf)"
  by (simp add: accumulateNorms_def linfStep_def Residual_def exInput_def exBlock_def
      exResidual_def exL2_def exLinf_def va_add_def va_mul_def upt_6)

subsection \<open>Edge ghost cells next to a wall\<close>











subsection \<open>Viscous walls in the inviscid ghost-cell passes\<close>

























subsection \<open>Restart files\<close>

lemma length_leBytes [simp]: "length (leBytes n w) = n"
  by (induction n arbitrary: w) simp_all

lemma leWord_leBytes: "leWord (leBytes n w) = take_bit (8 * n) w"
proof (induction n arbitrary: w)
  case 0
  then show ?case by simp
next
  case (Suc n)
  show ?case
    apply (simp add: Suc)
    apply (rule bit_word_eqI)
    apply (auto simp add: bit_simps)
    done
qed

lemma length_write [simp]:
  "length (writeInt w) = 4" "length (writeSize v) = 8" "length (writeDouble v) = 8"
  by (simp_all add: writeInt_def writeSize_def writeDouble_def)

lemma char_byte [simp]: "charOfByte (byteOfChar c) = c"
  by (simp add: charOfByte_def byteOfChar_def unsigned_of_nat char_of_take_bit_eq)

lemma unat_size: "n < 2 ^ 64 \<Longrightarrow> unat (word_of_nat n :: 64 word) = n"
  by (simp add: unsigned_of_nat take_bit_nat_eq_self)

lemma readInto_exact: "length old = length a \<Longrightarrow> readInto old (a @ s) = (a, s)"
  by (simp add: readInto_def)

lemma readInt_write [simp]: "readInt (writeInt w @ s) = (w, s)"
  by (simp add: readInt_def readInto_exact writeInt_def leWord_leBytes take_bit_word_eq_self)

lemma readSize_write [simp]: "readSize (writeSize w @ s) = (w, s)"
  by (simp add: readSize_def readInto_exact writeSize_def leWord_leBytes take_bit_word_eq_self)

lemma readSpeciesNames_write:
  assumes "list_all (\<lambda>name. length name < 2 ^ 64) names"
  shows "readSpeciesNames (length names) (concat (map writeSpeciesName names) @ s) = (names, s)"
  using assms
proof (induction names)
  case Nil
  then show ?case by simp
next
  case (Cons name names)
  then have n: "unat (word_of_nat (length name) :: 64 word) = length name"
    by (simp add: unat_size)
  have r: "readInto (replicate (length name) 0) (map byteOfChar name @ t) = (map byteOfChar name, t)"
    for t by (rule readInto_exact) simp
  show ?case using Cons by (simp add: writeSpeciesName_def n r comp_def)
qed

lemma length_doubles: "length (concat (map writeDouble xs)) = 8 * length xs"
  by (induction xs) simp_all

lemma read_residual:
  assumes "length mine = length theirs"
  shows "readInto (concat (map writeDouble mine)) (concat (map writeDouble theirs) @ s) =
           (concat (map writeDouble theirs), s)"
  by (rule readInto_exact) (simp add: length_doubles assms)

lemma loop_bound:
  assumes "n < 2 ^ 31"
  shows "nat (sint (word_of_nat n :: int32)) = n" "\<not> sint (word_of_nat n :: int32) < 0"
proof -
  have "signed_take_bit 31 (int n) = int n"
    using assms by (intro signed_take_bit_int_eq_self) simp_all
  then have "sint (word_of_nat n :: int32) = int n"
    by (simp add: signed_of_nat)
  then show "nat (sint (word_of_nat n :: int32)) = n" "\<not> sint (word_of_nat n :: int32) < 0"
    by simp_all
qed

lemma check_block_step:
  "checkBlockSizes numEqns gridSizes (ii # rest) (blockDimsBytes d @ s) =
     (case d of (numI, numJ, numK, numVars) \<Rightarrow>
      case gridSizes ! ii of (gx, gy, gz) \<Rightarrow>
        if numI \<noteq> gx \<or> numJ \<noteq> gy \<or> numK \<noteq> gz \<or> numVars - 1 \<noteq> numEqns
        then Inl RestartBlockSize
        else checkBlockSizes numEqns gridSizes rest s)"
  by (cases d) (simp add: blockDimsBytes_def)

lemma check_blocks_from:
  assumes "k \<le> length (blkDimsF h)"
  shows "checkBlockSizes (numEqnsF h) gridSizes [k..<length (blkDimsF h)]
           (concat (map blockDimsBytes (drop k (blkDimsF h))) @ s) =
         (if list_ex (blockDiffers h gridSizes) [k..<length (blkDimsF h)]
          then Inl RestartBlockSize else Inr s)"
  using assms
proof (induction "length (blkDimsF h) - k" arbitrary: k)
  case 0
  then show ?case by simp
next
  case (Suc m)
  then have k: "k < length (blkDimsF h)" by simp
  then have up: "[k..<length (blkDimsF h)] = k # [Suc k..<length (blkDimsF h)]"
    by (simp add: upt_conv_Cons)
  have dr: "drop k (blkDimsF h) = blkDimsF h ! k # drop (Suc k) (blkDimsF h)"
    using k by (simp add: Cons_nth_drop_Suc)
  have ih: "checkBlockSizes (numEqnsF h) gridSizes [Suc k..<length (blkDimsF h)]
           (concat (map blockDimsBytes (drop (Suc k) (blkDimsF h))) @ s) =
         (if list_ex (blockDiffers h gridSizes) [Suc k..<length (blkDimsF h)]
          then Inl RestartBlockSize else Inr s)"
    using Suc by (intro Suc.hyps(1)) simp_all
  have st: "concat (map blockDimsBytes (blkDimsF h ! k # drop (Suc k) (blkDimsF h))) @ s =
      blockDimsBytes (blkDimsF h ! k) @ concat (map blockDimsBytes (drop (Suc k) (blkDimsF h))) @ s"
    by simp
  show ?case
    unfolding up dr st check_block_step ih
    by (simp add: blockDiffers_def split: prod.splits)
qed

lemma check_blocks:
  "checkBlockSizes (numEqnsF h) gridSizes [0..<length (blkDimsF h)]
     (concat (map blockDimsBytes (blkDimsF h)) @ s) =
   (if list_ex (blockDiffers h gridSizes) [0..<length (blkDimsF h)]
    then Inl RestartBlockSize else Inr s)"
  using check_blocks_from[of 0 h gridSizes s] by simp

lemma word_of_nat_inj31:
  assumes "m < 2 ^ 31" "n < 2 ^ 31" "(word_of_nat m :: int32) = word_of_nat n"
  shows "m = n"
proof -
  have "nat (sint (word_of_nat m :: int32)) = nat (sint (word_of_nat n :: int32))"
    by (simp only: assms(3))
  then show ?thesis by (simp only: loop_bound(1)[OF assms(1)] loop_bound(1)[OF assms(2)])
qed

lemma count_eq:
  assumes "wellFormedHeader h" "length gridSizes < 2 ^ 31"
  shows "blockCountDiffers h gridSizes \<longleftrightarrow> length (blkDimsF h) \<noteq> length gridSizes"
proof -
  have l: "length (blkDimsF h) < 2 ^ 31" and n: "numBlksF h = word_of_nat (length (blkDimsF h))"
    using assms(1) unfolding wellFormedHeader_def by blast+
  have "(numBlksF h = word_of_nat (length gridSizes)) = (length (blkDimsF h) = length gridSizes)"
  proof
    assume "numBlksF h = word_of_nat (length gridSizes)"
    then have "(word_of_nat (length (blkDimsF h)) :: int32) = word_of_nat (length gridSizes)"
      by (simp only: n)
    then show "length (blkDimsF h) = length gridSizes"
      by (rule word_of_nat_inj31[OF l assms(2)])
  next
    assume "length (blkDimsF h) = length gridSizes"
    then show "numBlksF h = word_of_nat (length gridSizes)" by (simp only: n)
  qed
  then show ?thesis unfolding blockCountDiffers_def by (rule arg_cong[of _ _ Not])
qed

lemma read_formatted:
  assumes wf: "wellFormedHeader h" and len: "length residL2First = length (residL2FirstF h)"
    and grid: "length gridSizes < 2 ^ 31"
  shows "ReadRestart inp (Some (headerBytes h @ rest)) residL2First gridSizes =
     (if \<not> CheckSpeciesPasses inp (speciesNamesF h) then Inl RestartSpeciesUndefined
      else if blockCountDiffers h gridSizes then Inl RestartBlockCount
      else if someBlockDiffers h gridSizes then Inl RestartBlockSize
      else Inr \<lparr>iterationStart = iterF h,
                residualBytes = concat (map writeDouble (residL2FirstF h)),
                restartVarsRead =
                  [''density'', ''vel_x'', ''vel_y'', ''vel_z'', ''pressure'']
                  @ (if numEqnsF h = numSpeciesF h + 6 then [''tke'', ''sdr''] else [])
                  @ map (\<lambda>spec. ''mf_'' @ spec) (speciesNamesF h),
                afterHeader = rest\<rparr>)"
proof -
  have ls: "length (speciesNamesF h) < 2 ^ 31"
    and es: "numSpeciesF h = word_of_nat (length (speciesNamesF h))"
    and nm: "list_all (\<lambda>name. length name < 2 ^ 64) (speciesNamesF h)"
    and lb: "length (blkDimsF h) < 2 ^ 31"
    and eb: "numBlksF h = word_of_nat (length (blkDimsF h))"
    using wf unfolding wellFormedHeader_def by blast+
  have ns: "nat (sint (numSpeciesF h)) = length (speciesNamesF h)"
    and nn: "(sint (numSpeciesF h) < 0) = False"
    unfolding es using loop_bound[OF ls] by simp_all
  have nbl: "nat (sint (numBlksF h)) = length (blkDimsF h)"
    unfolding eb using loop_bound[OF lb] by simp
  have run: "ReadRestart inp (Some (headerBytes h @ rest)) residL2First gridSizes =
     (if \<not> CheckSpeciesPasses inp (speciesNamesF h) then Inl RestartSpeciesUndefined
      else if blockCountDiffers h gridSizes then Inl RestartBlockCount
      else (case checkBlockSizes (numEqnsF h) gridSizes [0..<length (blkDimsF h)]
                   (concat (map blockDimsBytes (blkDimsF h)) @ rest) of
                  Inl e \<Rightarrow> Inl e
                | Inr s8 \<Rightarrow>
                    Inr \<lparr>iterationStart = iterF h,
                         residualBytes = concat (map writeDouble (residL2FirstF h)),
                         restartVarsRead =
                           [''density'', ''vel_x'', ''vel_y'', ''vel_z'', ''pressure'']
                           @ (if numEqnsF h = numSpeciesF h + 6 then [''tke'', ''sdr''] else [])
                           @ map (\<lambda>spec. ''mf_'' @ spec) (speciesNamesF h),
                         afterHeader = s8\<rparr>))"
    by (simp only: ReadRestart_def headerBytes_def append_assoc option.case readInt_write
        prod.case ns nn nbl if_False readSpeciesNames_write[OF nm] read_residual[OF len]
        blockCountDiffers_def)
  show ?thesis
  proof (cases "blockCountDiffers h gridSizes")
    case True
    then show ?thesis
      unfolding run by (simp only: if_True)
  next
    case False
    then have "length gridSizes = length (blkDimsF h)"
      using count_eq[OF wf grid] by simp
    then have c: "checkBlockSizes (numEqnsF h) gridSizes [0..<length (blkDimsF h)]
                   (concat (map blockDimsBytes (blkDimsF h)) @ rest) =
        (if someBlockDiffers h gridSizes then Inl RestartBlockSize else Inr rest)"
      by (simp only: check_blocks someBlockDiffers_def)
    show ?thesis
      unfolding run c using False by (simp only: if_False) simp
  qed
qed

lemma length_restartVars:
  "length (restartVars inp) = NumSpecies inp + 5 + (if IsRANS inp then 2 else 0)"
  by (simp add: restartVars_def)

lemma write_formatted:
  assumes "inputInvariant inp"
  shows "length (restartVars inp) = NumEquations inp + 1"
    and "WriteRestart inp True solIter resid vars =
           Inr (headerBytes (writtenHeader inp solIter resid vars))"
    and "list_all (\<lambda>d. snd (snd (snd d)) = numEqnsF (writtenHeader inp solIter resid vars) + 1)
           (blkDimsF (writtenHeader inp solIter resid vars))"
proof -
  show len: "length (restartVars inp) = NumEquations inp + 1"
    using assms by (simp add: length_restartVars inputInvariant_def)
  have el: "blockDimsBytes \<circ> (\<lambda>(ni, nj, nk). (ni, nj, nk, word_of_nat (NumEquations inp) + 1)) =
      (\<lambda>(ni, nj, nk). writeInt ni @ writeInt nj @ writeInt nk @
                     writeInt (word_of_nat (NumEquations inp + 1)))"
    by (rule ext) (simp add: blockDimsBytes_def add.commute split: prod.splits)
  have dims: "concat (map blockDimsBytes
        (map (\<lambda>(ni, nj, nk). (ni, nj, nk, word_of_nat (NumEquations inp) + 1)) vars)) =
      concat (map (\<lambda>(ni, nj, nk). writeInt ni @ writeInt nj @ writeInt nk @
                     writeInt (word_of_nat (NumEquations inp + 1))) vars)"
    by (simp only: map_map el)
  show "WriteRestart inp True solIter resid vars =
           Inr (headerBytes (writtenHeader inp solIter resid vars))"
    unfolding WriteRestart_def headerBytes_def writtenHeader_def WriteBlockDims_def len
      restartHeader.select_convs dims
    by (simp add: comp_def)
  show "list_all (\<lambda>d. snd (snd (snd d)) = numEqnsF (writtenHeader inp solIter resid vars) + 1)
           (blkDimsF (writtenHeader inp solIter resid vars))"
    by (simp add: writtenHeader_def list_all_iff split: prod.splits)
qed

lemma written_wellFormed:
  assumes "inputInvariant inp" "NumSpecies inp < 2 ^ 31" "length vars < 2 ^ 31"
    "list_all (\<lambda>name. length name < 2 ^ 64) (FluidNames inp)"
  shows "wellFormedHeader (writtenHeader inp solIter resid vars)"
proof -
  have "list_all (\<lambda>name. length name < 2 ^ 64) (map (\<lambda>ii. FluidNames inp ! ii) [0..<NumSpecies inp])"
    using assms(1,4) by (simp add: list_all_iff inputInvariant_def)
  then show ?thesis
    using assms(2,3) by (simp add: wellFormedHeader_def writtenHeader_def)
qed

text \<open>
  Claim C9, as the code has it.  For an input that satisfies the equation count of the
  specification, \<^verbatim>\<open>WriteRestart\<close> writes a head in the restart format whose variable
  count is, for every block, the number of equations plus one (density, three velocity
  components, pressure, tke and sdr when RANS, and one mass fraction per species), and
  the head is well formed when the counts fit their fields.  \<^verbatim>\<open>ReadRestart\<close> exits
  when the file did not open.  Reading a file that opened and starts with a well-formed
  head whose residual block has the length of the residual passed by the reader, it exits
  when the species names of the head do not pass the species check; when they pass, it
  fails in the header checks exactly when the block count of the head differs from that
  of the grid (the first check), or the counts agree and, for some block, a dimension
  differs from the grid or the variable count minus one differs from the number of
  equations recorded in the head (the second check).
\<close>

theorem restart_header_checks:
  assumes inv: "inputInvariant inp"
    and wf: "wellFormedHeader h" and len: "length residL2First = length (residL2FirstF h)"
    and grid: "length gridSizes < 2 ^ 31"
  shows "length (restartVars inp) = NumEquations inp + 1
       \<and> WriteRestart inp True solIter resid vars =
           Inr (headerBytes (writtenHeader inp solIter resid vars))
       \<and> list_all (\<lambda>d. snd (snd (snd d)) = numEqnsF (writtenHeader inp solIter resid vars) + 1)
           (blkDimsF (writtenHeader inp solIter resid vars))
       \<and> (NumSpecies inp < 2 ^ 31 \<and> length vars < 2 ^ 31 \<and>
          list_all (\<lambda>name. length name < 2 ^ 64) (FluidNames inp) \<longrightarrow>
            wellFormedHeader (writtenHeader inp solIter resid vars))
       \<and> ReadRestart rinp None residL2First gridSizes = Inl RestartNotOpened
       \<and> (\<not> CheckSpeciesPasses rinp (speciesNamesF h) \<longrightarrow>
            ReadRestart rinp (Some (headerBytes h @ rest)) residL2First gridSizes =
              Inl RestartSpeciesUndefined)
       \<and> (CheckSpeciesPasses rinp (speciesNamesF h) \<longrightarrow>
            (isFailure (ReadRestart rinp (Some (headerBytes h @ rest)) residL2First gridSizes) \<longleftrightarrow>
               blockCountDiffers h gridSizes \<or> someBlockDiffers h gridSizes) \<and>
            (ReadRestart rinp (Some (headerBytes h @ rest)) residL2First gridSizes =
               Inl RestartBlockCount \<longleftrightarrow> blockCountDiffers h gridSizes) \<and>
            (ReadRestart rinp (Some (headerBytes h @ rest)) residL2First gridSizes =
               Inl RestartBlockSize \<longleftrightarrow>
               \<not> blockCountDiffers h gridSizes \<and> someBlockDiffers h gridSizes))"
proof -
  note w = write_formatted(1)[OF inv] write_formatted(2)[OF inv, of solIter resid vars]
    write_formatted(3)[OF inv, of solIter resid vars]
  have f: "NumSpecies inp < 2 ^ 31 \<and> length vars < 2 ^ 31 \<and>
          list_all (\<lambda>name. length name < 2 ^ 64) (FluidNames inp) \<longrightarrow>
            wellFormedHeader (writtenHeader inp solIter resid vars)"
    using written_wellFormed[OF inv] by blast
  have n: "ReadRestart rinp None residL2First gridSizes = Inl RestartNotOpened"
    by (simp add: ReadRestart_def)
  note r = read_formatted[OF wf len grid, of rinp rest]
  have u: "\<not> CheckSpeciesPasses rinp (speciesNamesF h) \<longrightarrow>
            ReadRestart rinp (Some (headerBytes h @ rest)) residL2First gridSizes =
              Inl RestartSpeciesUndefined"
    unfolding r by simp
  have c: "CheckSpeciesPasses rinp (speciesNamesF h) \<longrightarrow>
            (isFailure (ReadRestart rinp (Some (headerBytes h @ rest)) residL2First gridSizes) \<longleftrightarrow>
               blockCountDiffers h gridSizes \<or> someBlockDiffers h gridSizes) \<and>
            (ReadRestart rinp (Some (headerBytes h @ rest)) residL2First gridSizes =
               Inl RestartBlockCount \<longleftrightarrow> blockCountDiffers h gridSizes) \<and>
            (ReadRestart rinp (Some (headerBytes h @ rest)) residL2First gridSizes =
               Inl RestartBlockSize \<longleftrightarrow>
               \<not> blockCountDiffers h gridSizes \<and> someBlockDiffers h gridSizes)"
    unfolding r by (simp add: isFailure_def)
  show ?thesis
    by (rule conjI[OF w(1) conjI[OF w(2) conjI[OF w(3) conjI[OF f conjI[OF n conjI[OF u c]]]]]])
qed

lemma ex_invariant: "inputInvariant exInput"
  by (simp add: inputInvariant_def exInput_def)

lemma ex_written: "writtenHeader exInput 10 exResid exGrid = exHeader"
  by (simp add: writtenHeader_def exInput_def exGrid_def exHeader_def upt_rec)

lemma ex_wellFormed: "wellFormedHeader exHeader"
  by (simp add: wellFormedHeader_def exHeader_def)

lemma ex_species:
  "CheckSpeciesPasses exInput (speciesNamesF exHeader)"
  "\<not> CheckSpeciesPasses exStrictInput (speciesNamesF exHeader)"
  "CheckSpeciesPasses (exInput\<lparr>NumEquations := 8\<rparr>) (speciesNamesF exHeader)"
  by (simp_all add: exInput_def exStrictInput_def exHeader_def)

lemma ex_mismatch:
  "\<not> blockCountDiffers exHeader exGrid" "\<not> someBlockDiffers exHeader exGrid"
  "\<not> blockCountDiffers exHeader [(3, 1, 1)]" "someBlockDiffers exHeader [(3, 1, 1)]"
  "blockCountDiffers exHeader []"
  by (simp_all add: blockCountDiffers_def someBlockDiffers_def blockDiffers_def exHeader_def
      exGrid_def)

lemma ex_lengths:
  "length exResid = length (residL2FirstF exHeader)"
  "length exGrid < 2 ^ 31" "length [(3, 1, 1) :: int32 \<times> int32 \<times> int32] < 2 ^ 31"
  "length ([] :: (int32 \<times> int32 \<times> int32) list) < 2 ^ 31"
  by (simp_all add: exHeader_def exGrid_def)

theorem restart_header_checks_witness:
  "WriteRestart exInput True 10 exResid exGrid = Inr (headerBytes exHeader)
   \<and> snd (snd (snd (hd (blkDimsF exHeader)))) = numEqnsF exHeader + 1
   \<and> \<not> isFailure (ReadRestart exInput (Some (headerBytes exHeader @ exCellData)) exResid exGrid)
   \<and> ReadRestart exInput (Some (headerBytes exHeader @ exCellData)) exResid [(3, 1, 1)] =
       Inl RestartBlockSize
   \<and> ReadRestart exInput (Some (headerBytes exHeader @ exCellData)) exResid [] =
       Inl RestartBlockCount
   \<and> ReadRestart exStrictInput (Some (headerBytes exHeader @ exCellData)) exResid exGrid =
       Inl RestartSpeciesUndefined"
proof -
  note t1 = restart_header_checks[where solIter = 10 and resid = exResid and vars = exGrid
      and rinp = exInput and rest = exCellData,
      OF ex_invariant ex_wellFormed ex_lengths(1) ex_lengths(2)]
  note t2 = restart_header_checks[where solIter = 10 and resid = exResid and vars = exGrid
      and rinp = exInput and rest = exCellData,
      OF ex_invariant ex_wellFormed ex_lengths(1) ex_lengths(3)]
  note t3 = restart_header_checks[where solIter = 10 and resid = exResid and vars = exGrid
      and rinp = exInput and rest = exCellData,
      OF ex_invariant ex_wellFormed ex_lengths(1) ex_lengths(4)]
  note t4 = restart_header_checks[where solIter = 10 and resid = exResid and vars = exGrid
      and rinp = exStrictInput and rest = exCellData,
      OF ex_invariant ex_wellFormed ex_lengths(1) ex_lengths(2)]
  note six = conjunct2[THEN conjunct2, THEN conjunct2, THEN conjunct2, THEN conjunct2]
  note r1 = t1[THEN six, THEN conjunct2, THEN mp, OF ex_species(1)]
  note r2 = t2[THEN six, THEN conjunct2, THEN mp, OF ex_species(1)]
  note r3 = t3[THEN six, THEN conjunct2, THEN mp, OF ex_species(1)]
  note r4 = t4[THEN six, THEN conjunct1, THEN mp, OF ex_species(2)]
  have w: "WriteRestart exInput True 10 exResid exGrid = Inr (headerBytes exHeader)"
    using t1[THEN conjunct2, THEN conjunct1] by (simp only: ex_written)
  have v: "snd (snd (snd (hd (blkDimsF exHeader)))) = numEqnsF exHeader + 1"
    using t1[THEN conjunct2, THEN conjunct2, THEN conjunct1]
    by (simp add: ex_written) (simp add: exHeader_def)
  have a: "\<not> isFailure (ReadRestart exInput (Some (headerBytes exHeader @ exCellData)) exResid exGrid)"
    using r1 ex_mismatch by blast
  have b: "ReadRestart exInput (Some (headerBytes exHeader @ exCellData)) exResid [(3, 1, 1)] =
       Inl RestartBlockSize"
    using r2 ex_mismatch by blast
  have c: "ReadRestart exInput (Some (headerBytes exHeader @ exCellData)) exResid [] =
       Inl RestartBlockCount"
    using r3 ex_mismatch by blast
  show ?thesis
    by (rule conjI[OF w conjI[OF v conjI[OF a conjI[OF b conjI[OF c r4]]]]])
qed

text \<open>
  Claim C9 as the specification words it (failure exactly when the block count, a block
  dimension or the variable count differs) fails in four ways, all with the head of the
  example, which agrees with the grid in its block count, its dimensions and its variable
  count: the read fails when the file did not open; it fails when the species check does
  not pass; it fails, on the block count, when the reader passes a residual of eight
  entries, since the eight doubles read for it end inside the block dimensions and the
  block count is then taken from the variable count; and it does not fail for a reader
  whose own number of equations is eight, although the variable count minus one is six.
\<close>

lemma ex_shifted:
  "ReadRestart exInput (Some (headerBytes exHeader @ exCellData)) exResid8 exGrid =
     Inl RestartBlockCount"
proof -
  have ns: "nat (sint (2 :: int32)) = 2" "(sint (2 :: int32) < 0) = False"
    by simp_all
  have nm: "list_all (\<lambda>name. length name < 2 ^ 64) [''N2'', ''O2'']"
    by simp
  have l2: "length [''N2'', ''O2''] = 2" by simp
  note names = readSpeciesNames_write[OF nm, unfolded l2]
  let ?a = "concat (map writeDouble exResid) @ writeInt 1 @ writeInt 2 @ writeInt 1 @ writeInt 1"
  have st: "concat (map writeDouble exResid) @ writeInt 1 @
        concat (map blockDimsBytes [(2, 1, 1, 7)]) @ exCellData =
      ?a @ writeInt 7 @ exCellData"
    by (simp add: blockDimsBytes_def)
  have la: "length (concat (map writeDouble exResid8)) = length ?a"
    by (simp add: length_doubles exResid_def exResid8_def)
  have rd: "readInto (concat (map writeDouble exResid8)) (?a @ writeInt 7 @ exCellData) =
      (?a, writeInt 7 @ exCellData)"
    by (rule readInto_exact[OF la])
  have rd': "readInto (concat (map writeDouble exResid8))
        (concat (map writeDouble exResid) @ writeInt 1 @ writeInt 2 @ writeInt 1 @ writeInt 1 @
         writeInt 7 @ exCellData) =
      (?a, writeInt 7 @ exCellData)"
    using rd by (simp only: append_assoc)
  have run: "ReadRestart exInput (Some (headerBytes exHeader @ exCellData)) exResid8 exGrid =
      (if \<not> CheckSpeciesPasses exInput [''N2'', ''O2''] then Inl RestartSpeciesUndefined
       else if (7 :: int32) \<noteq> word_of_nat (length exGrid) then Inl RestartBlockCount
       else (case checkBlockSizes 6 exGrid [0..<nat (sint (7 :: int32))] exCellData of
               Inl e \<Rightarrow> Inl e
             | Inr s8 \<Rightarrow>
                 Inr \<lparr>iterationStart = 10, residualBytes = ?a,
                      restartVarsRead =
                        [''density'', ''vel_x'', ''vel_y'', ''vel_z'', ''pressure'']
                        @ (if (6 :: int32) = 2 + 6 then [''tke'', ''sdr''] else [])
                        @ map (\<lambda>spec. ''mf_'' @ spec) [''N2'', ''O2''],
                      afterHeader = s8\<rparr>))"
    by (simp only: ReadRestart_def headerBytes_def exHeader_def restartHeader.select_convs
        append_assoc option.case readInt_write prod.case ns if_False names st rd')
  show ?thesis
    unfolding run by (simp add: exInput_def exGrid_def)
qed

theorem ReadRestart_counterexample:
  "\<not> blockCountDiffers exHeader exGrid \<and> \<not> someBlockDiffers exHeader exGrid
   \<and> isFailure (ReadRestart exInput None exResid exGrid)
   \<and> isFailure (ReadRestart exStrictInput (Some (headerBytes exHeader @ exCellData)) exResid
        exGrid)
   \<and> isFailure (ReadRestart exInput (Some (headerBytes exHeader @ exCellData)) exResid8 exGrid)
   \<and> snd (snd (snd (hd (blkDimsF exHeader)))) - 1
        \<noteq> word_of_nat (NumEquations (exInput\<lparr>NumEquations := 8\<rparr>))
   \<and> \<not> isFailure (ReadRestart (exInput\<lparr>NumEquations := 8\<rparr>)
          (Some (headerBytes exHeader @ exCellData)) exResid exGrid)"
proof -
  note r = read_formatted[OF ex_wellFormed ex_lengths(1) ex_lengths(2), of _ exCellData]
  have a: "isFailure (ReadRestart exInput None exResid exGrid)"
    by (simp add: ReadRestart_def isFailure_def)
  have b: "isFailure (ReadRestart exStrictInput (Some (headerBytes exHeader @ exCellData)) exResid
        exGrid)"
    unfolding r using ex_species(2) by (simp add: isFailure_def)
  have c: "isFailure (ReadRestart exInput (Some (headerBytes exHeader @ exCellData)) exResid8 exGrid)"
    unfolding ex_shifted by (simp add: isFailure_def)
  have d: "snd (snd (snd (hd (blkDimsF exHeader)))) - 1
        \<noteq> word_of_nat (NumEquations (exInput\<lparr>NumEquations := 8\<rparr>))"
    by (simp add: exHeader_def)
  have e: "\<not> isFailure (ReadRestart (exInput\<lparr>NumEquations := 8\<rparr>)
          (Some (headerBytes exHeader @ exCellData)) exResid exGrid)"
    unfolding r using ex_species(3) ex_mismatch(1,2) by (simp add: isFailure_def)
  show ?thesis
    by (rule conjI[OF ex_mismatch(1) conjI[OF ex_mismatch(2) conjI[OF a conjI[OF b
        conjI[OF c conjI[OF d e]]]]]])
qed

subsection \<open>Conversion round trip in exact arithmetic\<close>

text \<open>
  With real numbers in place of doubles, converting a primitive of non-zero density to
  conserved variables and back returns the species densities and the velocity unchanged;
  the pressure is what the equation of state computes from the energy of the primitive,
  and the turbulence variables are the limited ones.  The round trip is the identity
  when the equation of state inverts its own energy and the limiter leaves the
  turbulence variables as they are.  Rounding is outside this model.
\<close>

lemma split_record:
  assumes "length d = ns + 4 + nt"
  shows "d = take ns d @ [d ! ns, d ! (ns + 1), d ! (ns + 2), d ! (ns + 3)] @ drop (ns + 4) d"
proof -
  have "drop ns d = d ! ns # drop (Suc ns) d" using assms by (simp add: Cons_nth_drop_Suc)
  moreover have "drop (Suc ns) d = d ! (ns + 1) # drop (ns + 2) d"
    using assms Cons_nth_drop_Suc[of "ns + 1" d] by simp
  moreover have "drop (ns + 2) d = d ! (ns + 2) # drop (ns + 3) d"
    using assms Cons_nth_drop_Suc[of "ns + 2" d] by (simp add: numeral_3_eq_3)
  moreover have "drop (ns + 3) d = d ! (ns + 3) # drop (ns + 4) d"
    using assms Cons_nth_drop_Suc[of "ns + 3" d] by (simp add: numeral_Bit0 numeral_3_eq_3)
  ultimately have "drop ns d = [d ! ns, d ! (ns + 1), d ! (ns + 2), d ! (ns + 3)] @ drop (ns + 4) d"
    by simp
  then show ?thesis by (metis append_take_drop_id)
qed

lemma PrimToCons_parts:
  assumes "length (data st) = numSpecies st + 4 + nt"
  shows "speciesPart (PrimToCons st phys) = speciesPart st"
    and "SpeciesSum (PrimToCons st phys) = Rho st"
    and "MomentumX (PrimToCons st phys) = Rho st * primU st"
    and "MomentumY (PrimToCons st phys) = Rho st * primV st"
    and "MomentumZ (PrimToCons st phys) = Rho st * primW st"
    and "EnergyEntry (PrimToCons st phys) = Rho st * PrimEnergy phys st"
    and "turbulencePart (PrimToCons st phys) = map (\<lambda>t. Rho st * t) (turbulencePart st)"
    and "numSpecies (PrimToCons st phys) = numSpecies st"
proof -
  have l: "length (speciesPart st) = numSpecies st" using assms by (simp add: speciesPart_def)
  show sp: "speciesPart (PrimToCons st phys) = speciesPart st"
    using l by (simp add: PrimToCons_def Let_def speciesPart_def)
  show "SpeciesSum (PrimToCons st phys) = Rho st"
    using sp by (simp add: SpeciesSum_def Rho_def)
  show "MomentumX (PrimToCons st phys) = Rho st * primU st"
    using l by (simp add: PrimToCons_def Let_def MomentumX_def MomentumXIndex_def nth_append)
  show "MomentumY (PrimToCons st phys) = Rho st * primV st"
    using l by (simp add: PrimToCons_def Let_def MomentumY_def MomentumYIndex_def nth_append)
  show "MomentumZ (PrimToCons st phys) = Rho st * primW st"
    using l by (simp add: PrimToCons_def Let_def MomentumZ_def MomentumZIndex_def nth_append)
  show "EnergyEntry (PrimToCons st phys) = Rho st * PrimEnergy phys st"
    using l by (simp add: PrimToCons_def Let_def EnergyEntry_def EnergyIndex_def nth_append)
  show "turbulencePart (PrimToCons st phys) = map (\<lambda>t. Rho st * t) (turbulencePart st)"
    using l by (simp add: PrimToCons_def Let_def turbulencePart_def TurbulenceIndex_def)
  show "numSpecies (PrimToCons st phys) = numSpecies st"
    by (simp add: PrimToCons_def Let_def)
qed

lemma round_trip_exact:
  assumes len: "length (data st) = numSpecies st + 4 + nt" and rho: "Rho st \<noteq> 0"
  shows "primitiveFromCons (PrimToCons st phys) phys =
           st\<lparr>data := speciesPart st
                  @ [primU st, primV st, primW st,
                     PressFromEnergy phys (speciesPart st) (PrimEnergy phys st) (VelocityMag st)]
                  @ LimitTurbN phys (turbulencePart st)\<rparr>"
proof -
  note p = PrimToCons_parts[OF len, of phys]
  have t: "map (\<lambda>t. t / Rho st) (map (\<lambda>t. Rho st * t) (turbulencePart st)) = turbulencePart st"
    using rho by (simp add: comp_def)
  have e: "PrimToCons st phys = st\<lparr>data := data (PrimToCons st phys)\<rparr>"
    by (simp add: PrimToCons_def Let_def)
  show ?thesis
    unfolding primitiveFromCons_def Let_def p t
    using rho by (subst e) (simp add: VelocityMag_def)
qed

lemma round_trip_identity:
  assumes len: "length (data st) = numSpecies st + 4 + nt" and rho: "Rho st \<noteq> 0"
    and eos: "PressFromEnergy phys (speciesPart st) (PrimEnergy phys st) (VelocityMag st) = primP st"
    and turb: "LimitTurbN phys (turbulencePart st) = turbulencePart st"
  shows "primitiveFromCons (PrimToCons st phys) phys = st"
proof -
  have "data st = speciesPart st @ [primU st, primV st, primW st, primP st] @ turbulencePart st"
    using split_record[OF len]
    by (simp add: speciesPart_def turbulencePart_def TurbulenceIndex_def primU_def primV_def
        primW_def primP_def MomentumX_def MomentumY_def MomentumZ_def EnergyEntry_def
        MomentumXIndex_def MomentumYIndex_def MomentumZIndex_def EnergyIndex_def)
  then show ?thesis
    unfolding round_trip_exact[OF len rho] eos turb by simp
qed


end
